theory Spec2Isabelle
  imports Main "HOL-Library.Word"
begin

unbundle bit_operations_syntax

section \<open>Machine types and status codes\<close>

text \<open>
  The library is built for LP64: \<open>size_t\<close> and \<open>ssize_t\<close> are 64-bit words. A
  \<open>size_t\<close> is read unsigned (\<open><\<close>, \<open>\<le>\<close> on words), an \<open>ssize_t\<close> signed
  (\<open><s\<close>, \<open>\<le>s\<close>); the cast \<open>(ssize_t) nbyte\<close> keeps the bits. \<open>rstatus_t\<close> and
  \<open>err_t\<close> are C \<open>int\<close>; no arithmetic is done on them, so they are \<open>int\<close> here.
\<close>

type_synonym size_t = "64 word"
type_synonym ssize_t = "64 word"
type_synonym rstatus_t = int
type_synonym err_t = int

definition SSIZE_MAX :: size_t where
  "SSIZE_MAX = 0x7FFFFFFFFFFFFFFF"

text \<open>cc\_func.h\<close>

definition CC_OK :: rstatus_t where "CC_OK = 0"
definition CC_ERROR :: rstatus_t where "CC_ERROR = - 1"
definition CC_EAGAIN :: rstatus_t where "CC_EAGAIN = - 2"
definition CC_ENOMEM :: rstatus_t where "CC_ENOMEM = - 3"

text \<open>
  Modelled from the spec: the status codes \<open>CC_EEMPTY\<close>, \<open>CC_ERETRY\<close> and
  \<open>CC_ERDHUP\<close> are used by cc\_stream.c and cc\_option.c but declared in cc\_define.h,
  which is not among the sources; section 6 of the specification gives their values.
\<close>

definition CC_EEMPTY :: rstatus_t where "CC_EEMPTY = - 4"
definition CC_ERETRY :: rstatus_t where "CC_ERETRY = - 5"
definition CC_ERDHUP :: rstatus_t where "CC_ERDHUP = - 6"

text \<open>A status code returned through an \<open>ssize_t\<close> (sign extension of the \<open>int\<close>).\<close>

definition ssize_of :: "int \<Rightarrow> ssize_t" where
  "ssize_of i = word_of_int i"

text \<open>
  The values of \<open>errno\<close> the code tests, as Linux defines them (the event back end of
  this build is epoll). \<open>EAGAIN\<close> and \<open>EWOULDBLOCK\<close> are the same number there; the
  code tests both.
\<close>

definition EINTR :: err_t where "EINTR = 4"
definition EAGAIN :: err_t where "EAGAIN = 11"
definition EWOULDBLOCK :: err_t where "EWOULDBLOCK = 11"

text \<open>
  \<open>ASSERT\<close> and \<open>NOT_REACHED\<close> come from cc\_debug.h. A failed assertion is a branch
  of the model of its own: the call stops with \<open>Assert_failed\<close>. Theorems carry the
  asserted preconditions as hypotheses, so they hold as well for a build that compiles
  the assertions out.
\<close>

datatype fault = Assert_failed

section \<open>Connections (cc\_nio.h, cc\_nio.c)\<close>

definition CONN_CONNECT :: nat where "CONN_CONNECT = 0"
definition CONN_CONNECTED :: nat where "CONN_CONNECTED = 1"
definition CONN_EOF :: nat where "CONN_EOF = 2"
definition CONN_CLOSE :: nat where "CONN_CLOSE = 3"

text \<open>
  \<open>struct conn\<close> of cc\_nio.h, without the pool link \<open>next\<close> and the address pointer
  \<open>addr\<close>, which no function modelled here reads or writes.
\<close>

record conn =
  sd :: int
  family :: int
  addrlen :: nat
  recv_nbyte :: size_t
  send_nbyte :: size_t
  recv_active :: bool
  send_active :: bool
  recv_ready :: bool
  send_ready :: bool
  mode :: nat
  state :: nat
  flags :: nat
  err :: err_t

text \<open>
  The socket is the environment. One call of \<open>cc_read\<close>, \<open>cc_readv\<close>, \<open>cc_write\<close> or
  \<open>cc_writev\<close> has an outcome: the value returned and the \<open>errno\<close> it leaves. The
  environment is a script, the list of the outcomes of the calls still to come; a call
  takes the head. What remains of the script is returned, so that a function that does
  not touch the socket returns the script it was given.
\<close>

record io_outcome =
  ret :: ssize_t
  errno :: err_t

text \<open>
  The body of the \<open>for (;;)\<close> loop of \<open>conn_recv\<close>. \<open>EINTR\<close> goes round the loop
  again, which takes the next outcome of the script. The result is \<open>None\<close> when the
  script ends while the loop is still retrying.
\<close>

fun conn_recv_loop ::
  "conn \<Rightarrow> size_t \<Rightarrow> io_outcome list \<Rightarrow> (ssize_t \<times> conn \<times> io_outcome list) option" where
  "conn_recv_loop c nbyte [] = None"
| "conn_recv_loop c nbyte (oc # rest) =
     (let n = ret oc in
      if 0 <s n then
        Some (n, (if n <s nbyte then c\<lparr>recv_ready := False\<rparr> else c)
                   \<lparr>recv_nbyte := recv_nbyte c + n\<rparr>, rest)
      else if n = 0 then
        Some (n, c\<lparr>recv_ready := False, state := CONN_EOF\<rparr>, rest)
      else if errno oc = EINTR then
        conn_recv_loop c nbyte rest
      else if errno oc = EAGAIN \<or> errno oc = EWOULDBLOCK then
        Some (ssize_of CC_EAGAIN, c\<lparr>recv_ready := False\<rparr>, rest)
      else
        Some (ssize_of CC_ERROR, c\<lparr>recv_ready := False, err := errno oc\<rparr>, rest))"

text \<open>
  \<open>conn_recv\<close>: the assertions \<open>nbyte > 0\<close> and \<open>conn->recv_ready\<close>, then the loop.
  The buffer is not modelled (the bytes read play no part in the bookkeeping), so the
  assertion \<open>buf != NULL\<close> holds by construction.
\<close>

definition conn_recv ::
  "conn \<Rightarrow> size_t \<Rightarrow> io_outcome list \<Rightarrow> (fault + ssize_t \<times> conn \<times> io_outcome list) option" where
  "conn_recv c nbyte script =
     (if nbyte = 0 \<or> \<not> recv_ready c then Some (Inl Assert_failed)
      else map_option Inr (conn_recv_loop c nbyte script))"

text \<open>
  \<open>conn_recvv\<close>, the vector variant over \<open>cc_readv\<close>. \<open>nelem\<close> is \<open>array_n(bufv)\<close>.
  On a return of zero it clears \<open>recv_ready\<close> and returns 0; it does not assign
  \<open>conn->state\<close>.
\<close>

fun conn_recvv_loop ::
  "conn \<Rightarrow> size_t \<Rightarrow> io_outcome list \<Rightarrow> (ssize_t \<times> conn \<times> io_outcome list) option" where
  "conn_recvv_loop c nbyte [] = None"
| "conn_recvv_loop c nbyte (oc # rest) =
     (let n = ret oc in
      if 0 <s n then
        Some (n, (if n <s nbyte then c\<lparr>recv_ready := False\<rparr> else c)
                   \<lparr>recv_nbyte := recv_nbyte c + n\<rparr>, rest)
      else if n = 0 then
        Some (0, c\<lparr>recv_ready := False\<rparr>, rest)
      else if errno oc = EINTR then
        conn_recvv_loop c nbyte rest
      else if errno oc = EAGAIN \<or> errno oc = EWOULDBLOCK then
        Some (ssize_of CC_EAGAIN, c\<lparr>recv_ready := False\<rparr>, rest)
      else
        Some (ssize_of CC_ERROR, c\<lparr>recv_ready := False, err := errno oc\<rparr>, rest))"

definition conn_recvv ::
  "conn \<Rightarrow> nat \<Rightarrow> size_t \<Rightarrow> io_outcome list
     \<Rightarrow> (fault + ssize_t \<times> conn \<times> io_outcome list) option" where
  "conn_recvv c nelem nbyte script =
     (if nelem = 0 \<or> nbyte = 0 \<or> \<not> recv_ready c then Some (Inl Assert_failed)
      else map_option Inr (conn_recvv_loop c nbyte script))"

text \<open>\<open>conn_send\<close> over \<open>cc_write\<close>.\<close>

fun conn_send_loop ::
  "conn \<Rightarrow> size_t \<Rightarrow> io_outcome list \<Rightarrow> (ssize_t \<times> conn \<times> io_outcome list) option" where
  "conn_send_loop c nbyte [] = None"
| "conn_send_loop c nbyte (oc # rest) =
     (let n = ret oc in
      if 0 <s n then
        Some (n, (if n <s nbyte then c\<lparr>send_ready := False\<rparr> else c)
                   \<lparr>send_nbyte := send_nbyte c + n\<rparr>, rest)
      else if n = 0 then
        Some (0, c\<lparr>send_ready := False\<rparr>, rest)
      else if errno oc = EINTR then
        conn_send_loop c nbyte rest
      else if errno oc = EAGAIN \<or> errno oc = EWOULDBLOCK then
        Some (ssize_of CC_EAGAIN, c\<lparr>send_ready := False\<rparr>, rest)
      else
        Some (ssize_of CC_ERROR, c\<lparr>send_ready := False, err := errno oc\<rparr>, rest))"

definition conn_send ::
  "conn \<Rightarrow> size_t \<Rightarrow> io_outcome list \<Rightarrow> (fault + ssize_t \<times> conn \<times> io_outcome list) option" where
  "conn_send c nbyte script =
     (if nbyte = 0 \<or> \<not> send_ready c then Some (Inl Assert_failed)
      else map_option Inr (conn_send_loop c nbyte script))"

text \<open>\<open>conn_sendv\<close>, the vector variant over \<open>cc_writev\<close>.\<close>

fun conn_sendv_loop ::
  "conn \<Rightarrow> size_t \<Rightarrow> io_outcome list \<Rightarrow> (ssize_t \<times> conn \<times> io_outcome list) option" where
  "conn_sendv_loop c nbyte [] = None"
| "conn_sendv_loop c nbyte (oc # rest) =
     (let n = ret oc in
      if 0 <s n then
        Some (n, (if n <s nbyte then c\<lparr>send_ready := False\<rparr> else c)
                   \<lparr>send_nbyte := send_nbyte c + n\<rparr>, rest)
      else if n = 0 then
        Some (0, c\<lparr>send_ready := False\<rparr>, rest)
      else if errno oc = EINTR then
        conn_sendv_loop c nbyte rest
      else if errno oc = EAGAIN \<or> errno oc = EWOULDBLOCK then
        Some (ssize_of CC_EAGAIN, c\<lparr>send_ready := False\<rparr>, rest)
      else
        Some (ssize_of CC_ERROR, c\<lparr>send_ready := False, err := errno oc\<rparr>, rest))"

definition conn_sendv ::
  "conn \<Rightarrow> nat \<Rightarrow> size_t \<Rightarrow> io_outcome list
     \<Rightarrow> (fault + ssize_t \<times> conn \<times> io_outcome list) option" where
  "conn_sendv c nelem nbyte script =
     (if nelem = 0 \<or> nbyte = 0 \<or> \<not> send_ready c then Some (Inl Assert_failed)
      else map_option Inr (conn_sendv_loop c nbyte script))"

section \<open>Streams (cc\_stream.h, cc\_stream.c)\<close>

text \<open>
  Modelled from the spec: \<open>struct mbuf\<close> and its inline functions \<open>mbuf_rsize\<close> and
  \<open>mbuf_wsize\<close> are declared in cc\_mbuf.h, which is not among the sources. The
  glossary of the specification gives a buffer with a read cursor \<open>rpos\<close> and a write
  cursor \<open>wpos\<close>, with \<open>readable_size = wpos - rpos\<close> and
  \<open>writable_size = capacity - wpos\<close>. The cursors are pointers: 64-bit addresses here,
  \<open>capacity\<close> being the address one past the last byte of the buffer.
\<close>

record mbuf =
  rpos :: size_t
  wpos :: size_t
  capacity :: size_t

definition mbuf_rsize :: "mbuf \<Rightarrow> size_t" where
  "mbuf_rsize b = wpos b - rpos b"

definition mbuf_wsize :: "mbuf \<Rightarrow> size_t" where
  "mbuf_wsize b = capacity b - wpos b"

datatype channel_type = CHANNEL_UNKNOWN | CHANNEL_TCP | CHANNEL_TCPLISTEN

text \<open>
  \<open>struct stream\<close>. The channel pointer is the connection it points to, the two buffer
  pointers are the buffers; \<open>owner\<close> and \<open>data\<close> are opaque to this module. The field
  \<open>err\<close> of the stream is \<open>stream_err\<close> here, the name \<open>err\<close> being the
  connection's. The pool link \<open>next\<close> is left out.
\<close>

record stream =
  owner :: nat
  type :: channel_type
  channel :: conn
  rbuf :: mbuf
  wbuf :: mbuf
  data :: nat
  stream_err :: err_t

text \<open>
  \<open>stream_handler_t\<close>: the four data hooks, each a function pointer that may be
  \<open>NULL\<close>. A hook receives the stream and a byte count and returns nothing; what it
  does to the stream (its buffers and its connection included) is the stream it
  returns here. Hooks do no socket input or output of their own. The callbacks
  \<open>open\<close>, \<open>close\<close> and \<open>fd\<close> are not called by \<open>stream_read\<close> or \<open>stream_write\<close>.
  Both functions take the pointer \<open>stream->handler\<close> into a local before the first
  hook runs, so the handler is an argument of its own; hooks do not change the
  handler record.
\<close>

type_synonym data_handler_t = "stream \<Rightarrow> size_t \<Rightarrow> stream"

record stream_handler =
  pre_read :: "data_handler_t option"
  post_read :: "data_handler_t option"
  pre_write :: "data_handler_t option"
  post_write :: "data_handler_t option"

text \<open>\<open>if (hook != NULL) hook(stream, nbyte);\<close>\<close>

definition run_hook :: "data_handler_t option \<Rightarrow> stream \<Rightarrow> size_t \<Rightarrow> stream" where
  "run_hook hook s nbyte = (case hook of None \<Rightarrow> s | Some f \<Rightarrow> f s nbyte)"

text \<open>
  \<open>stream_read\<close>. The result is the status, the stream as the call leaves it and the
  rest of the script. The comparison \<open>n == nbyte\<close> is between an \<open>ssize_t\<close> and a
  \<open>size_t\<close>, so C compares the two as unsigned words.
\<close>

definition stream_read ::
  "stream_handler \<Rightarrow> stream \<Rightarrow> size_t \<Rightarrow> io_outcome list
     \<Rightarrow> (fault + rstatus_t \<times> stream \<times> io_outcome list) option" where
  "stream_read handler s nbyte script =
     (if type s = CHANNEL_UNKNOWN \<or> \<not> nbyte \<le> SSIZE_MAX then Some (Inl Assert_failed)
      else
        let s1 = run_hook (pre_read handler) s nbyte;
            cap = mbuf_wsize (rbuf s1)
        in
        if cap < nbyte then Some (Inr (CC_ENOMEM, s1, script))
        else
          (case type s1 of
             CHANNEL_TCP \<Rightarrow>
               (case conn_recv (channel s1) nbyte script of
                  None \<Rightarrow> None
                | Some (Inl f) \<Rightarrow> Some (Inl f)
                | Some (Inr (n, c, script')) \<Rightarrow>
                    let status =
                          (if n <s 0 then
                             (if n = ssize_of CC_EAGAIN then CC_OK else CC_ERROR)
                           else if n = 0 then CC_ERDHUP
                           else if n = nbyte then CC_ERETRY
                           else CC_OK);
                        s2 = s1\<lparr>channel := c\<rparr>;
                        s3 = s2\<lparr>rbuf := (rbuf s2)
                               \<lparr>wpos := wpos (rbuf s2) + (if 0 <s n then n else 0)\<rparr>\<rparr>;
                        s4 = (if 0 <s n then run_hook (post_read handler) s3 n else s3)
                    in Some (Inr (status, s4, script')))
           | _ \<Rightarrow> Some (Inl Assert_failed)))"

text \<open>
  \<open>stream_write\<close>. The two error sentinels return at once, before the cursor is moved
  and the hook is called. The comparison \<open>n < content\<close> is unsigned, as C converts the
  \<open>ssize_t\<close> to \<open>size_t\<close>.
\<close>

definition stream_write ::
  "stream_handler \<Rightarrow> stream \<Rightarrow> size_t \<Rightarrow> io_outcome list
     \<Rightarrow> (fault + rstatus_t \<times> stream \<times> io_outcome list) option" where
  "stream_write handler s nbyte script =
     (if type s = CHANNEL_UNKNOWN \<or> \<not> nbyte \<le> SSIZE_MAX then Some (Inl Assert_failed)
      else
        let s1 = run_hook (pre_write handler) s nbyte;
            content = mbuf_rsize (wbuf s1)
        in
        if content = 0 then Some (Inr (CC_EEMPTY, s1, script))
        else
          (case type s1 of
             CHANNEL_TCP \<Rightarrow>
               (case conn_send (channel s1) content script of
                  None \<Rightarrow> None
                | Some (Inl f) \<Rightarrow> Some (Inl f)
                | Some (Inr (n, c, script')) \<Rightarrow>
                    let s2 = s1\<lparr>channel := c\<rparr> in
                    if n <s 0 then
                      (if n = ssize_of CC_EAGAIN then Some (Inr (CC_EAGAIN, s2, script'))
                       else Some (Inr (CC_ERROR, s2, script')))
                    else
                      let status = (if n < content then CC_ERETRY else CC_OK);
                          s3 = s2\<lparr>wbuf := (wbuf s2)
                                 \<lparr>rpos := rpos (wbuf s2) + (if 0 <s n then n else 0)\<rparr>\<rparr>;
                          s4 = (if 0 <s n then run_hook (post_write handler) s3 n else s3)
                      in Some (Inr (status, s4, script')))
           | _ \<Rightarrow> Some (Inl Assert_failed)))"

section \<open>The event loop (cc\_event.h, event/cc\_epoll.c)\<close>

text \<open>cc\_event.h: the bits of the mask handed to the callback.\<close>

definition EVENT_READ :: "32 word" where "EVENT_READ = 0x0000ff"
definition EVENT_WRITE :: "32 word" where "EVENT_WRITE = 0x00ff00"
definition EVENT_ERR :: "32 word" where "EVENT_ERR = 0xff0000"

text \<open>The bits of \<open>epoll_event.events\<close> the code tests, as Linux defines them.\<close>

definition EPOLLIN :: "32 word" where "EPOLLIN = 0x001"
definition EPOLLOUT :: "32 word" where "EPOLLOUT = 0x004"
definition EPOLLERR :: "32 word" where "EPOLLERR = 0x008"
definition EPOLLHUP :: "32 word" where "EPOLLHUP = 0x010"
definition EPOLLRDHUP :: "32 word" where "EPOLLRDHUP = 0x2000"

text \<open>
  \<open>struct epoll_event\<close>: the platform's bits and the user data registered with the
  descriptor (\<open>data.ptr\<close>).
\<close>

record 'd epoll_event =
  events :: "32 word"
  ptr :: 'd

text \<open>
  \<open>struct event_base\<close>, as cc\_epoll.c uses it: the epoll descriptor, the number of
  slots of the event array and the callback, which may be \<open>NULL\<close>. The callback
  receives the user data and the mask and returns nothing; what it does is a change of
  the state \<open>'w\<close> of the program around the loop. The event array itself is what
  \<open>epoll_wait\<close> fills, and is part of the outcome of that call.
\<close>

record ('d, 'w) event_base =
  ep :: int
  nevent :: int
  cb :: "('d \<Rightarrow> 32 word \<Rightarrow> 'w \<Rightarrow> 'w) option"

text \<open>
  One call of \<open>epoll_wait\<close>: it fills the first entries of the event array and returns
  their number (0 when the wait timed out), or fails, returning -1 with an \<open>errno\<close>.
\<close>

datatype 'd wait_outcome = Ready "'d epoll_event list" | Failed err_t

fun nreturned_of :: "'d wait_outcome \<Rightarrow> int" where
  "nreturned_of (Ready evs) = int (length evs)"
| "nreturned_of (Failed e) = - 1"

fun filled_of :: "'d wait_outcome \<Rightarrow> 'd epoll_event list" where
  "filled_of (Ready evs) = evs"
| "filled_of (Failed e) = []"

fun errno_of :: "'d wait_outcome \<Rightarrow> err_t" where
  "errno_of (Ready evs) = 0"
| "errno_of (Failed e) = e"

text \<open>
  The translation in the body of the inner loop of \<open>event_wait\<close>: \<open>events\<close> starts at
  0 and the three tests set their bits in turn.
\<close>

definition event_translate :: "32 word \<Rightarrow> 32 word" where
  "event_translate ev_events =
     (let events0 = 0;
          events1 = (if ev_events AND (EPOLLERR OR EPOLLHUP) \<noteq> 0
                     then events0 OR EVENT_ERR else events0);
          events2 = (if ev_events AND (EPOLLIN OR EPOLLRDHUP) \<noteq> 0
                     then events1 OR EVENT_READ else events1);
          events3 = (if ev_events AND EPOLLOUT \<noteq> 0
                     then events2 OR EVENT_WRITE else events2)
      in events3)"

text \<open>
  The inner loop \<open>for (i = 0; i < nreturned; i++)\<close> over the entries that were filled:
  translate, then call the callback if there is one.
\<close>

fun dispatch ::
  "('d \<Rightarrow> 32 word \<Rightarrow> 'w \<Rightarrow> 'w) option \<Rightarrow> 'd epoll_event list \<Rightarrow> 'w \<Rightarrow> 'w" where
  "dispatch callback [] w = w"
| "dispatch callback (ev # evs) w =
     dispatch callback evs
       (case callback of
          None \<Rightarrow> w
        | Some f \<Rightarrow> f (ptr ev) (event_translate (events ev)) w)"

text \<open>
  The outer loop \<open>for (;;)\<close> of \<open>event_wait\<close>. The script is the list of the outcomes
  of the calls of \<open>epoll_wait\<close> to come; \<open>None\<close> when it ends while the loop is still
  retrying.
\<close>

fun event_wait_loop ::
  "('d, 'w) event_base \<Rightarrow> int \<Rightarrow> 'd wait_outcome list \<Rightarrow> 'w
     \<Rightarrow> (int \<times> 'w \<times> 'd wait_outcome list) option" where
  "event_wait_loop evb timeout [] w = None"
| "event_wait_loop evb timeout (oc # rest) w =
     (let nreturned = nreturned_of oc in
      if nreturned > 0 then
        Some (nreturned, dispatch (cb evb) (filled_of oc) w, rest)
      else if nreturned = 0 then
        (if timeout = - 1 then Some (- 1, w, rest) else Some (0, w, rest))
      else if errno_of oc = EINTR then
        event_wait_loop evb timeout rest w
      else
        Some (- 1, w, rest))"

text \<open>
  \<open>event_wait\<close>: the assertions \<open>ep > 0\<close> and \<open>nevent > 0\<close>, then the loop. The
  assertions on the pointers \<open>evb\<close> and \<open>ev_arr\<close> hold by construction.
\<close>

definition event_wait ::
  "('d, 'w) event_base \<Rightarrow> int \<Rightarrow> 'd wait_outcome list \<Rightarrow> 'w
     \<Rightarrow> (fault + int \<times> 'w \<times> 'd wait_outcome list) option" where
  "event_wait evb timeout script w =
     (if ep evb \<le> 0 \<or> nevent evb \<le> 0 then Some (Inl Assert_failed)
      else map_option Inr (event_wait_loop evb timeout script w))"

text \<open>
  The translation as the specification words it (section 4.C, step 1): \<open>ERR\<close> iff the
  platform reports hang-up or error, \<open>READ\<close> iff readable or peer-close-with-data,
  \<open>WRITE\<close> iff writable, and no bit besides these. A bit of the abstract mask is set
  when the mask meets the constant of cc\_event.h: callers test it with \<open>&\<close>.
\<close>

definition mask_per_spec :: "32 word \<Rightarrow> 32 word \<Rightarrow> bool" where
  "mask_per_spec ev_events m =
     (((m AND EVENT_ERR \<noteq> 0) = (ev_events AND EPOLLERR \<noteq> 0 \<or> ev_events AND EPOLLHUP \<noteq> 0))
    \<and> ((m AND EVENT_READ \<noteq> 0) = (ev_events AND EPOLLIN \<noteq> 0 \<or> ev_events AND EPOLLRDHUP \<noteq> 0))
    \<and> ((m AND EVENT_WRITE \<noteq> 0) = (ev_events AND EPOLLOUT \<noteq> 0))
    \<and> m AND NOT (EVENT_ERR OR EVENT_READ OR EVENT_WRITE) = 0)"

section \<open>Options (cc\_option.c)\<close>

text \<open>
  Modelled from the spec: the limits \<open>OPTLINE_MAXLEN\<close>, \<open>OPTNAME_MAXLEN\<close> and
  \<open>OPTVAL_MAXLEN\<close> are used by cc\_option.c but declared in cc\_option.h, which is not
  among the sources. Section 6 of the specification gives them: a line of at most 1023
  characters, a name of at most 31, a value of at most 255 after trimming.
\<close>

definition OPTLINE_MAXLEN :: nat where "OPTLINE_MAXLEN = 1023"
definition OPTNAME_MAXLEN :: nat where "OPTNAME_MAXLEN = 31"
definition OPTVAL_MAXLEN :: nat where "OPTVAL_MAXLEN = 255"

text \<open>
  \<open>isspace\<close> of the C library in the C locale: space, and the five control characters
  from horizontal tab (9) to carriage return (13).
\<close>

definition isspace :: "char \<Rightarrow> bool" where
  "isspace c = (c = CHR '' '' \<or> (9 \<le> (of_char c :: nat) \<and> (of_char c :: nat) \<le> 13))"

text \<open>\<open>_allowed_in_name\<close>: \<open>a\<close>-\<open>z\<close>, the underscore, \<open>A\<close>-\<open>Z\<close>, \<open>0\<close>-\<open>9\<close>.\<close>

definition allowed_in_name :: "char \<Rightarrow> bool" where
  "allowed_in_name c =
     (let n = (of_char c :: nat) in
      (of_char CHR ''a'' \<le> n \<and> n \<le> of_char CHR ''z'') \<or> c = CHR ''_''
      \<or> (of_char CHR ''A'' \<le> n \<and> n \<le> of_char CHR ''Z'')
      \<or> (of_char CHR ''0'' \<le> n \<and> n \<le> of_char CHR ''9''))"

text \<open>
  A C string is the list of its characters before the terminator. Positions in the
  line are the differences \<open>p - line\<close> and \<open>q - line\<close>, signed as pointer
  differences are; reading at \<open>strlen(line)\<close> gives the terminator.
\<close>

definition char_at :: "string \<Rightarrow> int \<Rightarrow> char" where
  "char_at line i = (if 0 \<le> i \<and> i < int (length line) then line ! nat i else CHR 0x00)"

text \<open>
  The loop that parses the name: it copies characters up to the first \<open>:\<close>, the end
  of the line or position \<open>OPTNAME_MAXLEN + 1\<close>, and returns \<open>CC_ERROR\<close> at a
  character that a name cannot hold. The result is the position reached and the
  characters copied.
\<close>

function name_loop :: "string \<Rightarrow> int \<Rightarrow> string \<Rightarrow> rstatus_t + int \<times> string" where
  "name_loop line p name =
     (if char_at line p \<noteq> CHR '':'' \<and> p < int (length line) \<and> p \<le> int OPTNAME_MAXLEN then
        (if allowed_in_name (char_at line p)
         then name_loop line (p + 1) (name @ [char_at line p])
         else Inl CC_ERROR)
      else Inr (p, name))"
  by pat_completeness auto
termination
  by (relation "measure (\<lambda>(line, p, name). nat (int (length line) - p))") auto

text \<open>\<open>while (isspace(*p) && p < q) p++;\<close>\<close>

function ltrim_loop :: "string \<Rightarrow> int \<Rightarrow> int \<Rightarrow> int" where
  "ltrim_loop line p q =
     (if isspace (char_at line p) \<and> p < q then ltrim_loop line (p + 1) q else p)"
  by pat_completeness auto
termination
  by (relation "measure (\<lambda>(line, p, q). nat (q - p))") auto

text \<open>\<open>while (isspace(*q) && q >= p) q--;\<close>\<close>

function rtrim_loop :: "string \<Rightarrow> int \<Rightarrow> int \<Rightarrow> int" where
  "rtrim_loop line p q =
     (if isspace (char_at line q) \<and> q \<ge> p then rtrim_loop line p (q - 1) else q)"
  by pat_completeness auto
termination
  by (relation "measure (\<lambda>(line, p, q). nat (q - p + 1))") auto

text \<open>
  \<open>option_parse\<close>. The result is the status and, when it is \<open>CC_OK\<close>, the two
  strings left in the buffers \<open>name\<close> and \<open>val\<close>; on the other paths the buffers hold
  no terminated string.
\<close>

definition option_parse :: "string \<Rightarrow> rstatus_t \<times> (string \<times> string) option" where
  "option_parse line =
     (let llen = length line in
      if length line = 0 \<or> isspace (char_at line 0) \<or> char_at line 0 = CHR ''#'' then
        (CC_EEMPTY, None)
      else if llen > OPTLINE_MAXLEN then (CC_ERROR, None)
      else
        (case name_loop line 0 [] of
           Inl status \<Rightarrow> (status, None)
         | Inr (p, name) \<Rightarrow>
             if p = int llen then (CC_ERROR, None)
             else if p > int OPTNAME_MAXLEN then (CC_ERROR, None)
             else
               let p1 = p + 1;
                   q0 = int llen - 1;
                   p2 = ltrim_loop line p1 q0;
                   q = rtrim_loop line p2 q0
               in
               if p2 > q then (CC_ERROR, None)
               else
                 let vlen = nat (q - p2 + 1) in
                 if vlen > OPTVAL_MAXLEN then (CC_ERROR, None)
                 else (CC_OK, Some (name, take vlen (drop (nat p2) line)))))"

text \<open>
  \<open>struct option\<close> is declared in cc\_option.h; cc\_option.c uses the fields below.
  The record and its fields carry the prefix \<open>opt_\<close>, \<open>option\<close> and \<open>set\<close> being
  names of HOL. The union \<open>val\<close> holds a boolean, an unsigned integer of the widest
  type (64 bits) or a string pointer, which may be \<open>NULL\<close>.
\<close>

datatype option_type = OPTION_TYPE_BOOL | OPTION_TYPE_UINT | OPTION_TYPE_STR

datatype option_val = Vbool bool | Vuint "64 word" | Vstr "string option"

record opt =
  opt_name :: string
  opt_set :: bool
  opt_type :: option_type
  opt_default_val_str :: "string option"
  opt_val :: option_val
  opt_description :: string

definition UINTMAX_MAX :: "64 word" where
  "UINTMAX_MAX = 0xFFFFFFFFFFFFFFFF"

text \<open>\<open>_option_parse_bool\<close>: the string is \<open>yes\<close> or \<open>no\<close>.\<close>

definition option_parse_bool :: "opt \<Rightarrow> string \<Rightarrow> rstatus_t \<times> opt" where
  "option_parse_bool opt val_str =
     (if length val_str = 3 \<and> val_str = ''yes'' then
        (CC_OK, opt\<lparr>opt_set := True, opt_val := Vbool True\<rparr>)
      else if length val_str = 2 \<and> val_str = ''no'' then
        (CC_OK, opt\<lparr>opt_set := True, opt_val := Vbool False\<rparr>)
      else (CC_ERROR, opt))"

text \<open>
  \<open>_option_parse_uint\<close>. \<open>strtoumax\<close> belongs to the C library: it is an argument
  here, a function from the string to the value returned and the number of characters
  consumed (\<open>endptr - val_str\<close>), for base 0.
\<close>

definition option_parse_uint ::
  "(string \<Rightarrow> 64 word \<times> nat) \<Rightarrow> opt \<Rightarrow> string \<Rightarrow> rstatus_t \<times> opt" where
  "option_parse_uint strtoumax opt val_str =
     (let (val, consumed) = strtoumax val_str in
      if val = UINTMAX_MAX then (CC_ERROR, opt)
      else if consumed < length val_str then (CC_ERROR, opt)
      else (CC_OK, opt\<lparr>opt_set := True, opt_val := Vuint val\<rparr>))"

text \<open>\<open>_option_parse_str\<close>: the pointer is stored; \<open>set\<close> is raised unless it is \<open>NULL\<close>.\<close>

definition option_parse_str :: "opt \<Rightarrow> string option \<Rightarrow> opt" where
  "option_parse_str opt val_str =
     (if val_str \<noteq> None then opt\<lparr>opt_set := True\<rparr> else opt)\<lparr>opt_val := Vstr val_str\<rparr>"

text \<open>
  \<open>option_set\<close>. The value string is a pointer: \<open>None\<close> is \<open>NULL\<close>, which the boolean
  and integer parsers would dereference; that call stops with \<open>Null_pointer\<close>. The
  \<open>default\<close> branch of the switch cannot be reached from a value of the enumeration.
\<close>

datatype option_fault = Null_pointer

definition option_set ::
  "(string \<Rightarrow> 64 word \<times> nat) \<Rightarrow> opt \<Rightarrow> string option \<Rightarrow> option_fault + rstatus_t \<times> opt" where
  "option_set strtoumax opt val_str =
     (case opt_type opt of
        OPTION_TYPE_BOOL \<Rightarrow>
          (case val_str of None \<Rightarrow> Inl Null_pointer | Some s \<Rightarrow> Inr (option_parse_bool opt s))
      | OPTION_TYPE_UINT \<Rightarrow>
          (case val_str of None \<Rightarrow> Inl Null_pointer
           | Some s \<Rightarrow> Inr (option_parse_uint strtoumax opt s))
      | OPTION_TYPE_STR \<Rightarrow> Inr (CC_OK, option_parse_str opt val_str))"

section \<open>Scripts and the inputs the theorems are run on\<close>

text \<open>
  An outcome that makes the loops of cc\_nio.c go round again: the call failed and
  \<open>errno\<close> is \<open>EINTR\<close>.
\<close>

definition is_eintr :: "io_outcome \<Rightarrow> bool" where
  "is_eintr oc = (ret oc <s 0 \<and> errno oc = EINTR)"

definition eintr_outcome :: io_outcome where
  "eintr_outcome = \<lparr>ret = - 1, errno = EINTR\<rparr>"

definition eagain_outcome :: io_outcome where
  "eagain_outcome = \<lparr>ret = - 1, errno = EAGAIN\<rparr>"

definition bytes_outcome :: "ssize_t \<Rightarrow> io_outcome" where
  "bytes_outcome k = \<lparr>ret = k, errno = 0\<rparr>"

text \<open>A connected socket on which both readiness flags are set.\<close>

definition conn0 :: conn where
  "conn0 = \<lparr>sd = 7, family = 2, addrlen = 16, recv_nbyte = 0, send_nbyte = 0,
     recv_active = True, send_active = True, recv_ready = True, send_ready = True,
     mode = 0, state = CONN_CONNECTED, flags = 0, err = 0\<rparr>"

definition error_outcome :: io_outcome where
  "error_outcome = \<lparr>ret = - 1, errno = 104\<rparr>"

text \<open>
  A hook that leaves a trace: it adds the byte count it is given to the \<open>data\<close> field
  of the stream.
\<close>

definition count_hook :: data_handler_t where
  "count_hook s n = s\<lparr>data := data s + unat n\<rparr>"

text \<open>A handler with the two post hooks set and the two pre hooks \<open>NULL\<close>.\<close>

definition handler0 :: stream_handler where
  "handler0 = \<lparr>pre_read = None, post_read = Some count_hook,
     pre_write = None, post_write = Some count_hook\<rparr>"

text \<open>
  A TCP stream over \<open>conn0\<close>: an empty read buffer of 1024 bytes and a write buffer
  holding 100 bytes.
\<close>

definition stream0 :: stream where
  "stream0 = \<lparr>owner = 0, type = CHANNEL_TCP, channel = conn0,
     rbuf = \<lparr>rpos = 0x1000, wpos = 0x1000, capacity = 0x1400\<rparr>,
     wbuf = \<lparr>rpos = 0x2000, wpos = 0x2064, capacity = 0x2400\<rparr>,
     data = 0, stream_err = 0\<rparr>"

text \<open>The same stream with nothing to send.\<close>

definition stream_empty :: stream where
  "stream_empty = stream0\<lparr>wbuf := \<lparr>rpos = 0x2000, wpos = 0x2000, capacity = 0x2400\<rparr>\<rparr>"

text \<open>
  A connection that has seen end of file, on which the event loop has set
  \<open>recv_ready\<close> again.
\<close>

definition conn_eof :: conn where
  "conn_eof = conn0\<lparr>state := CONN_EOF\<rparr>"

text \<open>A call of \<open>epoll_wait\<close> that a signal interrupted.\<close>

definition is_wait_eintr :: "'d wait_outcome \<Rightarrow> bool" where
  "is_wait_eintr oc = (oc = Failed EINTR)"

text \<open>
  An event base whose callback records, in order, the user data and the mask of every
  call made to it; one whose callback counts the calls.
\<close>

definition trace_cb :: "nat \<Rightarrow> 32 word \<Rightarrow> (nat \<times> 32 word) list \<Rightarrow> (nat \<times> 32 word) list" where
  "trace_cb d m tr = tr @ [(d, m)]"

definition evb0 :: "(nat, (nat \<times> 32 word) list) event_base" where
  "evb0 = \<lparr>ep = 3, nevent = 1024, cb = Some trace_cb\<rparr>"

definition count_cb :: "nat \<Rightarrow> 32 word \<Rightarrow> nat \<Rightarrow> nat" where
  "count_cb d m n = Suc n"

definition evb_count :: "(nat, nat) event_base" where
  "evb_count = \<lparr>ep = 3, nevent = 1024, cb = Some count_cb\<rparr>"

definition evb_null :: "(nat, nat) event_base" where
  "evb_null = \<lparr>ep = 3, nevent = 1024, cb = None\<rparr>"

text \<open>
  Three ready descriptors: one readable; one writable whose peer hung up; one whose
  peer closed its end, with an error pending.
\<close>

definition ready3 :: "nat epoll_event list" where
  "ready3 = [\<lparr>events = EPOLLIN, ptr = 1\<rparr>, \<lparr>events = EPOLLOUT OR EPOLLHUP, ptr = 2\<rparr>,
     \<lparr>events = EPOLLRDHUP OR EPOLLERR, ptr = 3\<rparr>]"

text \<open>
  \<open>strtoumax\<close> of the C library for base 0, as the C standard describes it: leading
  white space, an optional sign, the prefix \<open>0x\<close> for base 16 or \<open>0\<close> for base 8,
  then the longest run of digits of the base. The result is the value and the number of
  characters consumed; with no digit nothing is consumed and the value is 0; a value
  that does not fit is \<open>UINTMAX_MAX\<close>; after a minus sign the value is negated in
  the unsigned type. \<open>option_set\<close> is run with it in the witnesses.
\<close>

definition digit_of :: "char \<Rightarrow> nat option" where
  "digit_of c =
     (let n = (of_char c :: nat) in
      if of_char CHR ''0'' \<le> n \<and> n \<le> of_char CHR ''9'' then Some (n - of_char CHR ''0'')
      else if of_char CHR ''a'' \<le> n \<and> n \<le> of_char CHR ''z'' then Some (n - of_char CHR ''a'' + 10)
      else if of_char CHR ''A'' \<le> n \<and> n \<le> of_char CHR ''Z'' then Some (n - of_char CHR ''A'' + 10)
      else None)"

fun digits_loop :: "nat \<Rightarrow> string \<Rightarrow> nat \<Rightarrow> nat \<Rightarrow> nat \<times> nat" where
  "digits_loop b [] acc cnt = (acc, cnt)"
| "digits_loop b (c # cs) acc cnt =
     (case digit_of c of
        Some d \<Rightarrow> if d < b then digits_loop b cs (acc * b + d) (Suc cnt) else (acc, cnt)
      | None \<Rightarrow> (acc, cnt))"

definition hex_prefix :: "string \<Rightarrow> bool" where
  "hex_prefix s =
     (case s of
        c0 # c1 # c2 # cs \<Rightarrow>
          c0 = CHR ''0'' \<and> (c1 = CHR ''x'' \<or> c1 = CHR ''X'')
          \<and> (case digit_of c2 of Some d \<Rightarrow> d < 16 | None \<Rightarrow> False)
      | _ \<Rightarrow> False)"

definition strtoumax_body :: "bool \<Rightarrow> nat \<Rightarrow> string \<Rightarrow> 64 word \<times> nat" where
  "strtoumax_body neg off s =
     (let base = (if hex_prefix s then 16 else if s \<noteq> [] \<and> hd s = CHR ''0'' then 8 else 10);
          pfx = (if hex_prefix s then 2 else 0);
          (v, cnt) = digits_loop base (drop pfx s) 0 0
      in if cnt = 0 then (0, 0)
         else (if 2 ^ 64 - 1 < v then UINTMAX_MAX
               else if neg then - of_nat v else of_nat v,
               off + pfx + cnt))"

definition strtoumax_sign :: "nat \<Rightarrow> string \<Rightarrow> 64 word \<times> nat" where
  "strtoumax_sign ws s =
     (case s of
        [] \<Rightarrow> strtoumax_body False ws s
      | c # cs \<Rightarrow>
          if c = CHR ''-'' then strtoumax_body True (ws + 1) cs
          else if c = CHR ''+'' then strtoumax_body False (ws + 1) cs
          else strtoumax_body False ws s)"

definition strtoumax_c :: "string \<Rightarrow> 64 word \<times> nat" where
  "strtoumax_c s = strtoumax_sign (length (takeWhile isspace s)) (dropWhile isspace s)"

text \<open>The option \<open>tcp_backlog\<close>, not yet set.\<close>

definition uint_opt :: opt where
  "uint_opt = \<lparr>opt_name = ''tcp_backlog'', opt_set = False, opt_type = OPTION_TYPE_UINT,
     opt_default_val_str = Some ''128'', opt_val = Vuint 0,
     opt_description = ''tcp conn backlog limit''\<rparr>"

section \<open>Auxiliary facts\<close>

subsection \<open>Signed and unsigned readings of a 64-bit word\<close>

lemma sint_nonneg_of_le:
  assumes "(k::64 word) \<le> SSIZE_MAX" shows "sint k = uint k"
proof -
  have "uint k \<le> uint SSIZE_MAX" using assms by (simp add: word_le_def)
  then have "uint k < 2 ^ 63" by (simp add: SSIZE_MAX_def)
  moreover have "0 \<le> uint k" by simp
  ultimately have "signed_take_bit 63 (uint k) = uint k"
    by (intro signed_take_bit_int_eq_self) linarith+
  then show ?thesis by (simp add: sint_uint)
qed

lemma nonneg_le_SSIZE_MAX:
  assumes "0 \<le>s (k::64 word)" shows "k \<le> SSIZE_MAX"
proof -
  have s: "0 \<le> sint k" using assms by (simp add: word_sle_eq)
  have "sint k < 2 ^ 63" using sint_lt [of k] by simp
  with s have "take_bit 64 (sint k) = sint k"
    by (simp add: take_bit_int_eq_self)
  then have "uint k = sint k" by (simp add: uint_sint)
  with \<open>sint k < 2 ^ 63\<close> have "uint k \<le> uint SSIZE_MAX" by (simp add: SSIZE_MAX_def)
  then show ?thesis by (simp add: word_le_def)
qed

lemma sless_iff_less:
  "k \<le> SSIZE_MAX \<Longrightarrow> n \<le> SSIZE_MAX \<Longrightarrow> (k <s n) = (k < (n::64 word))"
  by (simp add: word_sless_alt word_less_def sint_nonneg_of_le)

lemma pos_sless_iff_less:
  "0 <s k \<Longrightarrow> n \<le> SSIZE_MAX \<Longrightarrow> (k <s n) = (k < (n::64 word))"
  by (rule sless_iff_less) (auto intro: nonneg_le_SSIZE_MAX simp: word_sless_alt word_sle_eq)

lemma zero_sless_iff: "n \<le> SSIZE_MAX \<Longrightarrow> (0 <s n) = (n \<noteq> (0::64 word))"
  using sless_iff_less [of 0 n] by (simp add: SSIZE_MAX_def word_neq_0_conv)

lemma sless_zero_cases: "(n::64 word) <s 0 \<Longrightarrow> \<not> 0 <s n \<and> n \<noteq> 0"
  by (auto simp: word_sless_alt)

subsection \<open>The retry loops\<close>

lemma eintr_not_eagain: "EINTR \<noteq> EAGAIN" "EINTR \<noteq> EWOULDBLOCK"
  by (simp_all add: EINTR_def EAGAIN_def EWOULDBLOCK_def)

lemma is_eintr_eintr_outcome: "is_eintr eintr_outcome"
  by (simp add: is_eintr_def eintr_outcome_def word_sless_alt)

lemma ret_bytes_outcome: "ret (bytes_outcome k) = k"
  by (simp add: bytes_outcome_def)

text \<open>Calls interrupted by a signal are retried: they leave no trace in the result.\<close>

lemma conn_recv_loop_eintr:
  "list_all is_eintr pre \<Longrightarrow> conn_recv_loop c n (pre @ rest) = conn_recv_loop c n rest"
  by (induction pre) (auto simp: is_eintr_def Let_def dest: sless_zero_cases)

lemma conn_send_loop_eintr:
  "list_all is_eintr pre \<Longrightarrow> conn_send_loop c n (pre @ rest) = conn_send_loop c n rest"
  by (induction pre) (auto simp: is_eintr_def Let_def dest: sless_zero_cases)

lemma sentinels_negative:
  "ssize_of CC_EAGAIN <s 0" "ssize_of CC_ERROR <s 0" "ssize_of CC_EAGAIN \<noteq> ssize_of CC_ERROR"
  by (simp_all add: ssize_of_def CC_EAGAIN_def CC_ERROR_def word_sless_alt)

lemma sint_zero_iff: "(sint (n::64 word) = 0) = (n = 0)"
  by (metis signed_eq_0_iff)

lemma not_pos_not_zero: "\<not> 0 <s (n::64 word) \<Longrightarrow> n \<noteq> 0 \<Longrightarrow> n <s 0"
  using sint_zero_iff [of n] by (simp add: word_sless_alt)

lemma conn_recv_loop_range:
  "conn_recv_loop c n script = Some (k, c', rest) \<Longrightarrow>
     k = ssize_of CC_EAGAIN \<or> k = ssize_of CC_ERROR \<or> 0 \<le>s k"
  by (induction script) (auto simp: Let_def word_sle_eq word_sless_alt split: if_splits)

lemma conn_send_loop_range:
  "conn_send_loop c n script = Some (k, c', rest) \<Longrightarrow>
     k = ssize_of CC_EAGAIN \<or> k = ssize_of CC_ERROR \<or> 0 \<le>s k"
  by (induction script) (auto simp: Let_def word_sle_eq word_sless_alt split: if_splits)

lemma conn_recv_loop_returns:
  "\<not> is_eintr oc \<Longrightarrow> \<exists>k c'. conn_recv_loop c n (oc # rest) = Some (k, c', rest)"
  by (auto simp: is_eintr_def Let_def dest: not_pos_not_zero)

lemma conn_send_loop_returns:
  "\<not> is_eintr oc \<Longrightarrow> \<exists>k c'. conn_send_loop c n (oc # rest) = Some (k, c', rest)"
  by (auto simp: is_eintr_def Let_def dest: not_pos_not_zero)

lemma conn_recv_range:
  "conn_recv c n script = Some (Inr (k, c', rest)) \<Longrightarrow>
     k = ssize_of CC_EAGAIN \<or> k = ssize_of CC_ERROR \<or> 0 \<le>s k"
  by (auto simp: conn_recv_def split: if_splits dest: conn_recv_loop_range)

lemma conn_send_range:
  "conn_send c n script = Some (Inr (k, c', rest)) \<Longrightarrow>
     k = ssize_of CC_EAGAIN \<or> k = ssize_of CC_ERROR \<or> 0 \<le>s k"
  by (auto simp: conn_send_def split: if_splits dest: conn_send_loop_range)

lemma conn_recv_returns:
  assumes "list_all is_eintr pre" "\<not> is_eintr oc" "nbyte \<noteq> 0" "recv_ready c"
  shows "\<exists>k c'. conn_recv c nbyte (pre @ oc # rest) = Some (Inr (k, c', rest))"
  using conn_recv_loop_returns [OF assms(2), of c nbyte rest] assms
  by (auto simp: conn_recv_def conn_recv_loop_eintr)

lemma conn_send_returns:
  assumes "list_all is_eintr pre" "\<not> is_eintr oc" "nbyte \<noteq> 0" "send_ready c"
  shows "\<exists>k c'. conn_send c nbyte (pre @ oc # rest) = Some (Inr (k, c', rest))"
  using conn_send_loop_returns [OF assms(2), of c nbyte rest] assms
  by (auto simp: conn_send_def conn_send_loop_eintr)

lemma sle_not_sless: "0 \<le>s (k::64 word) \<Longrightarrow> \<not> k <s 0"
  by (simp add: word_sle_eq word_sless_alt)

lemma nonneg_pos_iff: "0 \<le>s (k::64 word) \<Longrightarrow> (0 <s k) = (k \<noteq> 0)"
  using sint_zero_iff [of k] by (auto simp: word_sle_eq word_sless_alt)

text \<open>
  \<open>conn_recv\<close> writes the state of the connection and never reads it: whatever the
  state was, the value returned and the rest of the script are the same, and the
  connection left is the same but for the state it started with (on a return of zero
  the state is \<open>CONN_EOF\<close> either way).
\<close>

lemma sentinels_nonzero: "ssize_of CC_EAGAIN \<noteq> 0" "ssize_of CC_ERROR \<noteq> 0"
  by (simp_all add: ssize_of_def CC_EAGAIN_def CC_ERROR_def)

lemma pos_nonzero: "0 <s (n::64 word) \<Longrightarrow> n \<noteq> 0"
  by (auto simp: word_sless_alt)

lemma conn_recv_loop_state:
  "conn_recv_loop (c\<lparr>state := st\<rparr>) n script =
     map_option (\<lambda>(k, c', rest). (k, if k = 0 then c' else c'\<lparr>state := st\<rparr>, rest))
       (conn_recv_loop c n script)"
  by (induction script) (auto simp: Let_def sentinels_nonzero dest: pos_nonzero)

lemma conn_recv_state:
  "conn_recv (c\<lparr>state := st\<rparr>) n script =
     map_option (map_sum id (\<lambda>(k, c', rest). (k, if k = 0 then c' else c'\<lparr>state := st\<rparr>, rest)))
       (conn_recv c n script)"
  by (simp add: conn_recv_def conn_recv_loop_state option.map_comp comp_def)

subsection \<open>The sample inputs\<close>

lemma stream0_simps:
  "type stream0 = CHANNEL_TCP" "channel stream0 = conn0"
  "rbuf stream0 = \<lparr>rpos = 0x1000, wpos = 0x1000, capacity = 0x1400\<rparr>"
  "wbuf stream0 = \<lparr>rpos = 0x2000, wpos = 0x2064, capacity = 0x2400\<rparr>"
  "run_hook (pre_read handler0) stream0 n = stream0"
  "run_hook (pre_write handler0) stream0 n = stream0"
  "run_hook (post_read handler0) s n = s\<lparr>data := data s + unat n\<rparr>"
  "run_hook (post_write handler0) s n = s\<lparr>data := data s + unat n\<rparr>"
  by (simp_all add: stream0_def handler0_def run_hook_def count_hook_def)

lemma conn0_recv_samples:
  "conn_recv conn0 64 [eintr_outcome, bytes_outcome 3] =
     Some (Inr (3, conn0\<lparr>recv_ready := False, recv_nbyte := 3\<rparr>, []))"
  "conn_recv conn0 64 [bytes_outcome 64] = Some (Inr (64, conn0\<lparr>recv_nbyte := 64\<rparr>, []))"
  "conn_recv conn0 64 [bytes_outcome 0] =
     Some (Inr (0, conn0\<lparr>recv_ready := False, state := CONN_EOF\<rparr>, []))"
  "conn_recv conn0 64 [eagain_outcome] =
     Some (Inr (ssize_of CC_EAGAIN, conn0\<lparr>recv_ready := False\<rparr>, []))"
  "conn_recv conn0 64 [error_outcome] =
     Some (Inr (ssize_of CC_ERROR, conn0\<lparr>recv_ready := False, err := 104\<rparr>, []))"
  by (simp_all add: conn_recv_def conn0_def eintr_outcome_def bytes_outcome_def
      eagain_outcome_def error_outcome_def Let_def word_sless_alt EINTR_def EAGAIN_def
      EWOULDBLOCK_def)

lemma sentinel_values:
  "ssize_of CC_EAGAIN = - 2" "ssize_of CC_ERROR = - 1"
  by (simp_all add: ssize_of_def CC_EAGAIN_def CC_ERROR_def)

lemma conn0_send_samples:
  "conn_send conn0 100 [eintr_outcome, bytes_outcome 40] =
     Some (Inr (40, conn0\<lparr>send_ready := False, send_nbyte := 40\<rparr>, []))"
  "conn_send conn0 100 [bytes_outcome 100] = Some (Inr (100, conn0\<lparr>send_nbyte := 100\<rparr>, []))"
  "conn_send conn0 100 [bytes_outcome 0] = Some (Inr (0, conn0\<lparr>send_ready := False\<rparr>, []))"
  "conn_send conn0 100 [eagain_outcome] =
     Some (Inr (ssize_of CC_EAGAIN, conn0\<lparr>send_ready := False\<rparr>, []))"
  "conn_send conn0 100 [error_outcome] =
     Some (Inr (ssize_of CC_ERROR, conn0\<lparr>send_ready := False, err := 104\<rparr>, []))"
  by (simp_all add: conn_send_def conn0_def eintr_outcome_def bytes_outcome_def
      eagain_outcome_def error_outcome_def Let_def word_sless_alt EINTR_def EAGAIN_def
      EWOULDBLOCK_def)

lemma stream_empty_simps:
  "type stream_empty = CHANNEL_TCP"
  "wbuf stream_empty = \<lparr>rpos = 0x2000, wpos = 0x2000, capacity = 0x2400\<rparr>"
  "run_hook (pre_write handler0) stream_empty n = stream_empty"
  by (simp_all add: stream_empty_def stream0_def handler0_def run_hook_def)

subsection \<open>The vector variants\<close>

text \<open>
  \<open>conn_sendv\<close> does what \<open>conn_send\<close> does on every script. \<open>conn_recvv\<close> does what
  \<open>conn_recv\<close> does as long as no call returns zero.
\<close>

lemma conn_sendv_loop_eq: "conn_sendv_loop c n script = conn_send_loop c n script"
  by (induction script) (simp_all add: Let_def)

lemma conn_sendv_eq_conn_send:
  "nelem \<noteq> 0 \<Longrightarrow> conn_sendv c nelem n script = conn_send c n script"
  by (simp add: conn_sendv_def conn_send_def conn_sendv_loop_eq)

lemma conn_recvv_loop_eq:
  "list_all (\<lambda>oc. ret oc \<noteq> 0) script \<Longrightarrow>
     conn_recvv_loop c n script = conn_recv_loop c n script"
  by (induction script) (simp_all add: Let_def)

lemma conn_recvv_eq_conn_recv:
  "nelem \<noteq> 0 \<Longrightarrow> list_all (\<lambda>oc. ret oc \<noteq> 0) script \<Longrightarrow>
     conn_recvv c nelem n script = conn_recv c n script"
  by (simp add: conn_recvv_def conn_recv_def conn_recvv_loop_eq)

subsection \<open>The event loop\<close>

lemma and_or_nonzero:
  "((x::32 word) AND (a OR b) \<noteq> 0) = (x AND a \<noteq> 0 \<or> x AND b \<noteq> 0)"
  by (simp add: bit.conj_disj_distrib or_eq_0_iff)

lemma event_translate_per_spec: "mask_per_spec e (event_translate e)"
  unfolding mask_per_spec_def event_translate_def Let_def and_or_nonzero
  by (simp add: EVENT_ERR_def EVENT_READ_def EVENT_WRITE_def)

lemma event_wait_loop_eintr:
  "list_all is_wait_eintr pre \<Longrightarrow>
     event_wait_loop evb timeout (pre @ rest) w = event_wait_loop evb timeout rest w"
  by (induction pre) (simp_all add: is_wait_eintr_def)

lemma dispatch_foldl:
  "dispatch (Some f) evs w = foldl (\<lambda>w ev. f (ptr ev) (event_translate (events ev)) w) w evs"
  by (induction evs arbitrary: w) simp_all

lemma dispatch_None: "dispatch None evs w = w"
  by (induction evs) simp_all

lemma translate_samples:
  "event_translate EPOLLIN = EVENT_READ"
  "event_translate (EPOLLOUT OR EPOLLHUP) = EVENT_ERR OR EVENT_WRITE"
  "event_translate (EPOLLRDHUP OR EPOLLERR) = EVENT_ERR OR EVENT_READ"
  by (simp_all add: event_translate_def EPOLLIN_def EPOLLOUT_def EPOLLHUP_def EPOLLERR_def
      EPOLLRDHUP_def Let_def)

subsection \<open>Parsing an option line\<close>

text \<open>
  The three loops are recursive on a position; their defining equations are applied one
  step at a time.
\<close>

declare name_loop.simps [simp del] ltrim_loop.simps [simp del] rtrim_loop.simps [simp del]

lemma allowed_in_name_plain:
  "allowed_in_name c \<Longrightarrow> c \<noteq> CHR '':'' \<and> \<not> isspace c \<and> c \<noteq> CHR ''#''"
  by (auto simp: allowed_in_name_def isspace_def Let_def)

lemma char_at_nth: "i < length line \<Longrightarrow> char_at line (int i) = line ! i"
  by (simp add: char_at_def)

lemma name_loop_status: "name_loop line p acc = Inl st \<Longrightarrow> st = CC_ERROR"
  by (induction line p acc rule: name_loop.induct)
     (subst (asm) name_loop.simps, auto split: if_splits)

lemma name_loop_name:
  assumes "list_all allowed_in_name nm" and "length nm \<le> OPTNAME_MAXLEN" and "i \<le> length nm"
  shows "name_loop (nm @ CHR '':'' # rest) (int i) acc = Inr (int (length nm), acc @ drop i nm)"
  using assms(3)
proof (induction "length nm - i" arbitrary: i acc)
  case 0
  then have i: "i = length nm" by simp
  have "char_at (nm @ CHR '':'' # rest) (int i) = CHR '':''"
    by (simp add: char_at_def i nth_append)
  then show ?case by (subst name_loop.simps) (simp add: i)
next
  case (Suc k)
  then have lt: "i < length nm" by simp
  have c: "char_at (nm @ CHR '':'' # rest) (int i) = nm ! i"
    using lt by (simp add: char_at_def nth_append)
  have al: "allowed_in_name (nm ! i)"
    using assms(1) lt by (simp add: list_all_length)
  have rec: "name_loop (nm @ CHR '':'' # rest) (int (Suc i)) (acc @ [nm ! i]) =
      Inr (int (length nm), (acc @ [nm ! i]) @ drop (Suc i) nm)"
    using Suc.hyps(1) [of "Suc i" "acc @ [nm ! i]"] Suc.hyps(2) lt by simp
  have "name_loop (nm @ CHR '':'' # rest) (int i) acc =
      name_loop (nm @ CHR '':'' # rest) (int i + 1) (acc @ [nm ! i])"
    using lt al assms(2) allowed_in_name_plain [OF al]
    by (subst name_loop.simps) (simp add: c)
  also have "\<dots> = Inr (int (length nm), (acc @ [nm ! i]) @ drop (Suc i) nm)"
    using rec by (simp add: add.commute)
  finally show ?case using lt by (simp add: Cons_nth_drop_Suc)
qed

lemma ltrim_loop_ws:
  assumes "list_all isspace ws" and "v \<noteq> []" and "\<not> isspace (hd v)"
    and "int (length pre + length ws) \<le> q" and "i \<le> length ws"
  shows "ltrim_loop (pre @ ws @ v @ post) (int (length pre + i)) q = int (length pre + length ws)"
  using assms(5)
proof (induction "length ws - i" arbitrary: i)
  case 0
  then have i: "i = length ws" by simp
  have "(pre @ ws @ v @ post) ! (length pre + length ws) = hd v"
    using assms(2) by (simp add: nth_append hd_conv_nth)
  moreover have "length pre + length ws < length (pre @ ws @ v @ post)"
    using assms(2) by simp
  ultimately have "char_at (pre @ ws @ v @ post) (int (length pre + i)) = hd v"
    unfolding i by (simp only: char_at_nth)
  then show ?case using assms(3) by (subst ltrim_loop.simps) (simp add: i)
next
  case (Suc k)
  then have lt: "i < length ws" by simp
  have "(pre @ ws @ v @ post) ! (length pre + i) = ws ! i"
    using lt by (simp add: nth_append)
  moreover have "length pre + i < length (pre @ ws @ v @ post)"
    using lt by simp
  ultimately have c: "char_at (pre @ ws @ v @ post) (int (length pre + i)) = ws ! i"
    by (simp only: char_at_nth)
  have sp: "isspace (ws ! i)" using assms(1) lt by (simp add: list_all_length)
  have pq: "int (length pre + i) < q" using lt assms(4) by simp
  have "ltrim_loop (pre @ ws @ v @ post) (int (length pre + i)) q =
      ltrim_loop (pre @ ws @ v @ post) (int (length pre + i) + 1) q"
    by (subst ltrim_loop.simps) (simp only: c sp pq simp_thms if_True)
  also have "\<dots> = int (length pre + length ws)"
    using Suc.hyps(1) [of "Suc i"] Suc.hyps(2) lt by (simp add: add.commute)
  finally show ?case .
qed

lemma rtrim_loop_ws:
  assumes "list_all isspace ws" and "v \<noteq> []" and "\<not> isspace (last v)"
    and "p \<le> int (length pre + (length v - 1))" and "j \<le> length ws"
  shows "rtrim_loop (pre @ v @ ws) p (int (length pre + (length v - 1) + j)) =
           int (length pre + (length v - 1))"
  using assms(5)
proof (induction j)
  case 0
  have "(pre @ v @ ws) ! (length pre + (length v - 1)) = last v"
    using assms(2) by (simp add: nth_append last_conv_nth)
  moreover have "length pre + (length v - 1) < length (pre @ v @ ws)"
    using assms(2) by (simp add: Suc_leI flip: length_greater_0_conv)
  ultimately have "char_at (pre @ v @ ws) (int (length pre + (length v - 1))) = last v"
    by (simp only: char_at_nth)
  then show ?case using assms(3) by (subst rtrim_loop.simps) simp
next
  case (Suc j)
  then have lt: "j < length ws" by simp
  have vl: "0 < length v" using assms(2) by simp
  have e: "length pre + (length v - 1) + Suc j = length pre + length v + j"
    using vl by simp
  have "(pre @ v @ ws) ! (length pre + length v + j) = ws ! j"
    by (simp add: nth_append)
  then have "(pre @ v @ ws) ! (length pre + (length v - 1) + Suc j) = ws ! j"
    by (simp only: e)
  moreover have "length pre + (length v - 1) + Suc j < length (pre @ v @ ws)"
    unfolding e using lt by simp
  ultimately have c: "char_at (pre @ v @ ws) (int (length pre + (length v - 1) + Suc j)) = ws ! j"
    by (simp only: char_at_nth)
  have sp: "isspace (ws ! j)" using assms(1) lt by (simp add: list_all_length)
  have pq: "p \<le> int (length pre + (length v - 1) + Suc j)" using assms(4) by simp
  have "rtrim_loop (pre @ v @ ws) p (int (length pre + (length v - 1) + Suc j)) =
      rtrim_loop (pre @ v @ ws) p (int (length pre + (length v - 1) + Suc j) - 1)"
    by (subst rtrim_loop.simps) (simp only: c sp pq simp_thms if_True)
  also have "\<dots> = int (length pre + (length v - 1))"
    using Suc.IH lt by simp
  finally show ?case .
qed

lemma char_at_0: "line \<noteq> [] \<Longrightarrow> char_at line 0 = hd line"
  by (simp add: char_at_def hd_conv_nth)

lemma status_distinct: "CC_ERROR \<noteq> CC_EEMPTY" "CC_OK \<noteq> CC_EEMPTY"
  by (simp_all add: CC_ERROR_def CC_EEMPTY_def CC_OK_def)

lemma option_parse_comment:
  "(fst (option_parse line) = CC_EEMPTY) =
     (line = [] \<or> isspace (hd line) \<or> hd line = CHR ''#'')"
proof (cases "line = [] \<or> isspace (hd line) \<or> hd line = CHR ''#''")
  case True
  then show ?thesis
    by (cases "line = []") (auto simp: option_parse_def char_at_0 Let_def)
next
  case False
  then have ne: "line \<noteq> []" and c: "\<not> isspace (char_at line 0)" "char_at line 0 \<noteq> CHR ''#''"
    by (auto simp: char_at_0)
  have "fst (option_parse line) \<noteq> CC_EEMPTY"
    using ne c status_distinct
    by (auto simp: option_parse_def Let_def split: sum.splits prod.splits
        dest: name_loop_status)
  with False show ?thesis by simp
qed

lemma option_parse_status:
  "fst (option_parse line) = CC_EEMPTY \<or> fst (option_parse line) = CC_ERROR
   \<or> fst (option_parse line) = CC_OK"
  by (auto simp: option_parse_def Let_def split: sum.splits prod.splits
      dest: name_loop_status)

lemma option_parse_grammar:
  assumes nm: "list_all allowed_in_name nm" "length nm \<le> OPTNAME_MAXLEN"
    and ws: "list_all isspace ws1" "list_all isspace ws2"
    and v: "v \<noteq> []" "\<not> isspace (hd v)" "\<not> isspace (last v)" "length v \<le> OPTVAL_MAXLEN"
    and line: "line = nm @ '':'' @ ws1 @ v @ ws2" "length line \<le> OPTLINE_MAXLEN"
  shows "option_parse line = (CC_OK, Some (nm, v))"
proof -
  let ?n = "length nm" and ?a = "length ws1" and ?b = "length v" and ?c = "length ws2"
  have llen: "length line = ?n + 1 + ?a + ?b + ?c" using line(1) by simp
  have vpos: "0 < ?b" using v(1) by simp
  obtain k where k: "?b = Suc k" using v(1) by (cases v) auto
  have first: "\<not> isspace (char_at line 0)" "char_at line 0 \<noteq> CHR ''#''"
  proof -
    have "char_at line 0 = hd line" using line(1) by (simp add: char_at_0)
    moreover have "hd line = CHR '':'' \<or> allowed_in_name (hd line)"
      using nm(1) line(1) by (cases nm) auto
    ultimately show "\<not> isspace (char_at line 0)" "char_at line 0 \<noteq> CHR ''#''"
      using allowed_in_name_plain [of "hd line"] by (auto simp: isspace_def)
  qed
  have name: "name_loop line 0 [] = Inr (int ?n, nm)"
    using name_loop_name [OF nm, of 0 "ws1 @ v @ ws2" "[]"] line(1) by simp
  have l1: "line = (nm @ '':'') @ ws1 @ v @ ws2" using line(1) by simp
  have lt: "ltrim_loop line (int ?n + 1) (int (length line) - 1) = int (?n + 1 + ?a)"
    using ltrim_loop_ws [OF ws(1) v(1) v(2), of "nm @ '':''" "int (length line) - 1" 0 ws2]
      vpos unfolding l1 by (simp add: ac_simps)
  have l2: "line = (nm @ '':'' @ ws1) @ v @ ws2" using line(1) by simp
  have q0: "int (length line) - 1 = int (length (nm @ '':'' @ ws1) + (?b - 1) + ?c)"
    using llen k by simp
  have rt: "rtrim_loop line (int (?n + 1 + ?a)) (int (length line) - 1) = int (?n + 1 + ?a + (?b - 1))"
    unfolding q0 using rtrim_loop_ws [OF ws(2) v(1) v(3), of "int (?n + 1 + ?a)"
        "nm @ '':'' @ ws1" ?c]
    unfolding l2 by (simp add: ac_simps)
  have val: "take ?b (drop (?n + 1 + ?a) line) = v"
    using line(1) by simp
  have vlen: "nat (int (?n + 1 + ?a + (?b - 1)) - int (?n + 1 + ?a) + 1) = ?b"
    using k by simp
  have ne: "int ?n \<noteq> int (length line)" "length line \<noteq> 0"
    "\<not> OPTLINE_MAXLEN < length line" "\<not> int OPTNAME_MAXLEN < int ?n"
    using llen line(2) nm(2) by simp_all
  have ord: "\<not> int (?n + 1 + ?a + (?b - 1)) < int (?n + 1 + ?a)" by simp
  have nat_p2: "nat (int (?n + 1 + ?a)) = ?n + 1 + ?a" by simp
  have vmax: "\<not> OPTVAL_MAXLEN < ?b" using v(4) by simp
  show ?thesis
    unfolding option_parse_def Let_def
    by (simp only: first ne name lt rt ord nat_p2 vlen vmax val
        if_False simp_thms sum.case prod.case)
qed

text \<open>
  What the three loops leave behind, for any line: the characters passed over and the
  character at which each loop stops.
\<close>

lemma drop_nth_Cons: "i < length xs \<Longrightarrow> drop i xs = xs ! i # drop (Suc i) xs"
  by (simp add: Cons_nth_drop_Suc)

lemma name_loop_shape:
  "name_loop line p acc = Inr (p', nm') \<Longrightarrow> 0 \<le> p \<Longrightarrow> p \<le> int (length line) \<Longrightarrow>
     p \<le> p' \<and> p' \<le> int (length line)
     \<and> nm' = acc @ take (nat (p' - p)) (drop (nat p) line)
     \<and> list_all allowed_in_name (take (nat (p' - p)) (drop (nat p) line))
     \<and> (p' < int (length line) \<and> p' \<le> int OPTNAME_MAXLEN \<longrightarrow> char_at line p' = CHR '':'')"
proof (induction line p acc rule: name_loop.induct)
  case (1 line p name)
  show ?case
  proof (cases "char_at line p \<noteq> CHR '':'' \<and> p < int (length line) \<and> p \<le> int OPTNAME_MAXLEN")
    case False
    have "name_loop line p name = Inr (p, name)"
      by (subst name_loop.simps) (simp only: False if_False)
    with "1.prems" False show ?thesis by auto
  next
    case True
    show ?thesis
    proof (cases "allowed_in_name (char_at line p)")
      case False
      have "name_loop line p name = Inl CC_ERROR"
        by (subst name_loop.simps) (simp only: True False if_True if_False simp_thms)
      with "1.prems" show ?thesis by simp
    next
      case al: True
      have rec: "name_loop line (p + 1) (name @ [char_at line p]) = Inr (p', nm')"
        using "1.prems"(1)
        by (subst (asm) name_loop.simps) (simp only: True al if_True simp_thms)
      have ih: "p + 1 \<le> p' \<and> p' \<le> int (length line)
         \<and> nm' = (name @ [char_at line p]) @ take (nat (p' - (p + 1))) (drop (nat (p + 1)) line)
         \<and> list_all allowed_in_name (take (nat (p' - (p + 1))) (drop (nat (p + 1)) line))
         \<and> (p' < int (length line) \<and> p' \<le> int OPTNAME_MAXLEN \<longrightarrow> char_at line p' = CHR '':'')"
        using "1.IH" [OF True al rec] "1.prems" True by simp
      have pl: "nat p < length line" using True "1.prems" by linarith
      have c: "char_at line p = line ! nat p" using True "1.prems" by (simp add: char_at_def)
      have n1: "nat (p + 1) = Suc (nat p)" using "1.prems" by simp
      have b: "p + 1 \<le> p'" using ih by blast
      have n2: "nat (p' - p) = Suc (nat (p' - (p + 1)))" using b by linarith
      have t: "take (nat (p' - p)) (drop (nat p) line) =
          line ! nat p # take (nat (p' - (p + 1))) (drop (nat (p + 1)) line)"
        unfolding n1 n2 by (simp add: drop_nth_Cons [OF pl])
      show ?thesis using ih al by (simp add: t c)
    qed
  qed
qed

lemma ltrim_loop_shape:
  "0 \<le> p \<Longrightarrow> q < int (length line) \<Longrightarrow>
     p \<le> ltrim_loop line p q
     \<and> (ltrim_loop line p q \<le> q \<or> ltrim_loop line p q = p)
     \<and> list_all isspace (take (nat (ltrim_loop line p q - p)) (drop (nat p) line))
     \<and> (ltrim_loop line p q < q \<longrightarrow> \<not> isspace (char_at line (ltrim_loop line p q)))"
proof (induction line p q rule: ltrim_loop.induct)
  case (1 line p q)
  show ?case
  proof (cases "isspace (char_at line p) \<and> p < q")
    case False
    have "ltrim_loop line p q = p"
      by (subst ltrim_loop.simps) (simp only: False if_False)
    with False show ?thesis by auto
  next
    case True
    let ?r = "ltrim_loop line (p + 1) q"
    have e: "ltrim_loop line p q = ?r"
      by (subst ltrim_loop.simps) (simp only: True if_True simp_thms)
    have ih: "p + 1 \<le> ?r \<and> (?r \<le> q \<or> ?r = p + 1)
        \<and> list_all isspace (take (nat (?r - (p + 1))) (drop (nat (p + 1)) line))
        \<and> (?r < q \<longrightarrow> \<not> isspace (char_at line ?r))"
      using "1.IH" [OF True] "1.prems" by simp
    have pl: "nat p < length line" using True "1.prems" by linarith
    have c: "char_at line p = line ! nat p" using True "1.prems" by (simp add: char_at_def)
    have n1: "nat (p + 1) = Suc (nat p)" using "1.prems" by simp
    have b: "p + 1 \<le> ?r" using ih by blast
    have n2: "nat (?r - p) = Suc (nat (?r - (p + 1)))" using b by linarith
    have t: "take (nat (?r - p)) (drop (nat p) line) =
        line ! nat p # take (nat (?r - (p + 1))) (drop (nat (p + 1)) line)"
      unfolding n1 n2 by (simp add: drop_nth_Cons [OF pl])
    have le: "?r \<le> q" using ih True by auto
    show ?thesis unfolding e using ih True le by (simp add: t c)
  qed
qed

lemma rtrim_loop_shape:
  "1 \<le> p \<Longrightarrow> q < int (length line) \<Longrightarrow> p - 1 \<le> q \<Longrightarrow>
     rtrim_loop line p q \<le> q \<and> p - 1 \<le> rtrim_loop line p q
     \<and> list_all isspace (take (nat (q - rtrim_loop line p q)) (drop (nat (rtrim_loop line p q + 1)) line))
     \<and> (p \<le> rtrim_loop line p q \<longrightarrow> \<not> isspace (char_at line (rtrim_loop line p q)))"
proof (induction line p q rule: rtrim_loop.induct)
  case (1 line p q)
  show ?case
  proof (cases "isspace (char_at line q) \<and> q \<ge> p")
    case False
    have "rtrim_loop line p q = q"
      by (subst rtrim_loop.simps) (simp only: False if_False)
    with False "1.prems" show ?thesis by auto
  next
    case True
    let ?r = "rtrim_loop line p (q - 1)"
    have e: "rtrim_loop line p q = ?r"
      by (subst rtrim_loop.simps) (simp only: True if_True simp_thms)
    have ih: "?r \<le> q - 1 \<and> p - 1 \<le> ?r
        \<and> list_all isspace (take (nat (q - 1 - ?r)) (drop (nat (?r + 1)) line))
        \<and> (p \<le> ?r \<longrightarrow> \<not> isspace (char_at line ?r))"
      using "1.IH" [OF True] "1.prems" True by simp
    have c: "char_at line q = line ! nat q" using True "1.prems" by (simp add: char_at_def)
    have b: "?r \<le> q - 1" "p - 1 \<le> ?r" using ih by blast+
    have n: "nat (q - ?r) = Suc (nat (q - 1 - ?r))" using b by linarith
    have "nat (q - 1 - ?r) < length line - nat (?r + 1)"
      using b "1.prems" by linarith
    then have len: "nat (q - 1 - ?r) < length (drop (nat (?r + 1)) line)"
      by simp
    have idx: "drop (nat (?r + 1)) line ! nat (q - 1 - ?r) = line ! nat q"
    proof -
      have "nat (?r + 1) + nat (q - 1 - ?r) = nat q" using b "1.prems" by linarith
      then show ?thesis using "1.prems" by simp
    qed
    have t: "take (nat (q - ?r)) (drop (nat (?r + 1)) line) =
        take (nat (q - 1 - ?r)) (drop (nat (?r + 1)) line) @ [line ! nat q]"
      unfolding n using take_Suc_conv_app_nth [OF len] idx by simp
    show ?thesis unfolding e using ih True by (simp add: t c)
  qed
qed


lemma drop_split: "a \<le> b \<Longrightarrow> drop a xs = take (b - a) (drop a xs) @ drop b xs"
  by (metis append_take_drop_id drop_drop le_add_diff_inverse2)

lemma option_parse_ok_shape:
  assumes ok: "option_parse line = (CC_OK, res)"
  shows "\<exists>nm ws1 v ws2. res = Some (nm, v) \<and> line = nm @ '':'' @ ws1 @ v @ ws2
      \<and> list_all allowed_in_name nm \<and> length nm \<le> OPTNAME_MAXLEN
      \<and> list_all isspace ws1 \<and> list_all isspace ws2
      \<and> v \<noteq> [] \<and> \<not> isspace (hd v) \<and> \<not> isspace (last v) \<and> length v \<le> OPTVAL_MAXLEN
      \<and> length line \<le> OPTLINE_MAXLEN"
proof -
  have st: "CC_EEMPTY \<noteq> CC_OK" "CC_ERROR \<noteq> CC_OK"
    by (simp_all add: CC_EEMPTY_def CC_ERROR_def CC_OK_def)
  let ?L = "int (length line)"
  from ok st have ne: "line \<noteq> []" and len: "length line \<le> OPTLINE_MAXLEN"
    by (auto simp: option_parse_def Let_def split: if_splits)
  from ok st ne len obtain p nm where name: "name_loop line 0 [] = Inr (p, nm)"
    by (auto simp: option_parse_def Let_def split: if_splits sum.splits dest: name_loop_status)
  define p2 where "p2 = ltrim_loop line (p + 1) (?L - 1)"
  define q where "q = rtrim_loop line p2 (?L - 1)"
  from ok st ne len name
  have chk: "p \<noteq> ?L" "\<not> p > int OPTNAME_MAXLEN" "\<not> p2 > q"
      "\<not> nat (q - p2 + 1) > OPTVAL_MAXLEN"
    and res: "res = Some (nm, take (nat (q - p2 + 1)) (drop (nat p2) line))"
    unfolding p2_def q_def
    by (auto simp: option_parse_def Let_def split: if_splits)
  have N: "0 \<le> p \<and> p \<le> ?L \<and> nm = take (nat p) line
      \<and> list_all allowed_in_name (take (nat p) line)
      \<and> (p < ?L \<and> p \<le> int OPTNAME_MAXLEN \<longrightarrow> char_at line p = CHR '':'')"
    using name_loop_shape [OF name] by simp
  then have p: "0 \<le> p" "p < ?L" "p \<le> int OPTNAME_MAXLEN" and colon: "char_at line p = CHR '':''"
    using chk by auto
  have Lt: "p + 1 \<le> p2 \<and> (p2 \<le> ?L - 1 \<or> p2 = p + 1)
      \<and> list_all isspace (take (nat (p2 - (p + 1))) (drop (nat (p + 1)) line))
      \<and> (p2 < ?L - 1 \<longrightarrow> \<not> isspace (char_at line p2))"
    unfolding p2_def using ltrim_loop_shape [of "p + 1" "?L - 1" line] p by simp
  then have p2: "p + 1 \<le> p2" "p2 \<le> ?L" using p by auto
  have Rt: "q \<le> ?L - 1 \<and> p2 - 1 \<le> q
      \<and> list_all isspace (take (nat (?L - 1 - q)) (drop (nat (q + 1)) line))
      \<and> (p2 \<le> q \<longrightarrow> \<not> isspace (char_at line q))"
    unfolding q_def using rtrim_loop_shape [of p2 "?L - 1" line] p p2 by simp
  then have q: "p2 \<le> q" "q < ?L" and qns: "\<not> isspace (char_at line q)"
    using chk by auto
  have p2ns: "\<not> isspace (char_at line p2)"
  proof (cases "p2 < ?L - 1")
    case True then show ?thesis using Lt by blast
  next
    case False
    then have "p2 = q" using q by linarith
    then show ?thesis using qns by simp
  qed
  define P P2 Q where "P = nat p" and "P2 = nat p2" and "Q = nat q"
  have ord: "P < P2" "P2 \<le> Q" "Q < length line"
    unfolding P_def P2_def Q_def using p p2 q by linarith+
  define ws1 where "ws1 = take (P2 - Suc P) (drop (Suc P) line)"
  define v where "v = take (Suc Q - P2) (drop P2 line)"
  define ws2 where "ws2 = drop (Suc Q) line"
  have e1: "nat (p2 - (p + 1)) = P2 - Suc P" "nat (p + 1) = Suc P"
      "nat (q - p2 + 1) = Suc Q - P2" "nat (q + 1) = Suc Q" "nat (?L - 1 - q) = length line - Suc Q"
    unfolding P_def P2_def Q_def using p p2 q by linarith+
  have ca: "char_at line p = line ! P" "char_at line p2 = line ! P2" "char_at line q = line ! Q"
    unfolding P_def P2_def Q_def using p p2 q by (simp_all add: char_at_def)
  have split: "line = take P line @ [line ! P] @ ws1 @ v @ ws2"
  proof -
    have "line = take P line @ drop P line" by simp
    also have "drop P line = line ! P # drop (Suc P) line"
      using ord by (simp add: drop_nth_Cons)
    also have "drop (Suc P) line = ws1 @ drop P2 line"
      unfolding ws1_def using ord drop_split [of "Suc P" P2 line] by simp
    also have "drop P2 line = v @ ws2"
      unfolding v_def ws2_def using ord drop_split [of P2 "Suc Q" line] by simp
    finally show ?thesis by simp
  qed
  have vlen: "length v = Suc Q - P2" unfolding v_def using ord by simp
  then have vne: "v \<noteq> []" using ord by auto
  have hdv: "hd v = line ! P2"
    unfolding v_def using ord by (simp add: hd_conv_nth)
  have lastv: "last v = line ! Q"
  proof -
    have "last v = v ! (length v - 1)" using vne by (simp add: last_conv_nth)
    also have "\<dots> = drop P2 line ! (Q - P2)" unfolding vlen v_def using ord by simp
    also have "\<dots> = line ! Q" using ord by simp
    finally show ?thesis .
  qed
  have "res = Some (take P line, v)" using res N by (simp add: v_def e1 P_def P2_def)
  moreover have "line = take P line @ '':'' @ ws1 @ v @ ws2"
    using split colon ca by simp
  moreover have "list_all allowed_in_name (take P line)" using N by (simp add: P_def)
  moreover have "length (take P line) \<le> OPTNAME_MAXLEN"
    using p by (simp add: P_def)
  moreover have "list_all isspace ws1" using Lt by (simp add: ws1_def e1)
  moreover have "list_all isspace ws2"
    using Rt by (simp add: ws2_def e1)
  moreover have "\<not> isspace (hd v)" "\<not> isspace (last v)"
    using p2ns qns by (simp_all add: hdv lastv ca)
  moreover have "length v \<le> OPTVAL_MAXLEN" using chk(4) by (simp add: vlen e1)
  ultimately show ?thesis using vne len by blast
qed

subsection \<open>The sample numbers\<close>

lemma strtoumax_c_max: "strtoumax_c ''18446744073709551615'' = (UINTMAX_MAX, 20)"
proof -
  have "strtoumax_body False 0 ''18446744073709551615'' = (UINTMAX_MAX, 20)"
    by (simp add: strtoumax_body_def hex_prefix_def digit_of_def UINTMAX_MAX_def)
  then show ?thesis
    by (simp add: strtoumax_c_def strtoumax_sign_def isspace_def)
qed

lemma strtoumax_c_below_max: "strtoumax_c ''18446744073709551614'' = (18446744073709551614, 20)"
proof -
  have "strtoumax_body False 0 ''18446744073709551614'' = (18446744073709551614, 20)"
    by (simp add: strtoumax_body_def hex_prefix_def digit_of_def)
  then show ?thesis
    by (simp add: strtoumax_c_def strtoumax_sign_def isspace_def)
qed

lemma strtoumax_c_minus_one: "strtoumax_c ''-1'' = (UINTMAX_MAX, 2)"
proof -
  have "strtoumax_body True 1 ''1'' = (UINTMAX_MAX, 2)"
    by (simp add: strtoumax_body_def hex_prefix_def digit_of_def UINTMAX_MAX_def)
  then show ?thesis
    by (simp add: strtoumax_c_def strtoumax_sign_def isspace_def)
qed

lemma strtoumax_c_hex: "strtoumax_c '' 0x1F'' = (31, 5)"
proof -
  have "strtoumax_body False 1 ''0x1F'' = (31, 5)"
    by (simp add: strtoumax_body_def hex_prefix_def digit_of_def)
  then show ?thesis
    by (simp add: strtoumax_c_def strtoumax_sign_def isspace_def)
qed

lemma strtoumax_c_partial: "strtoumax_c ''12ab'' = (12, 2)"
proof -
  have "strtoumax_body False 0 ''12ab'' = (12, 2)"
    by (simp add: strtoumax_body_def hex_prefix_def digit_of_def)
  then show ?thesis
    by (simp add: strtoumax_c_def strtoumax_sign_def isspace_def)
qed

section \<open>End of file\<close>

text \<open>
  Claim C1, as the code has it. If the read, after any number of interruptions,
  returns 0 bytes, \<open>conn_recv\<close> sets \<open>state\<close> to \<open>CONN_EOF\<close>, clears \<open>recv_ready\<close> and
  returns 0, and a \<open>stream_read\<close> making that call returns \<open>CC_ERDHUP\<close>; this holds of
  every connection with \<open>recv_ready\<close> set, one in state \<open>CONN_EOF\<close> included. The
  state is written and never read: for any two states of the same connection
  \<open>conn_recv\<close> returns the same value and leaves the same script, and the connections
  left differ in the state only. So a receive on a connection in state \<open>CONN_EOF\<close>
  reads the socket (it takes the outcome from the script), and returns the count of
  bytes the read returns.
\<close>

theorem eof_semantics:
  assumes pre: "list_all is_eintr pre"
  shows
    "(recv_ready c \<and> nbyte \<noteq> 0 \<and> ret oc = 0 \<longrightarrow>
        conn_recv c nbyte (pre @ oc # rest) =
          Some (Inr (0, c\<lparr>recv_ready := False, state := CONN_EOF\<rparr>, rest)))
   \<and> (ret oc = 0 \<and> type s = CHANNEL_TCP \<and> n \<le> SSIZE_MAX \<and> n \<noteq> 0
        \<and> s1 = run_hook (pre_read h) s n
        \<and> type s1 = CHANNEL_TCP \<and> \<not> mbuf_wsize (rbuf s1) < n \<and> recv_ready (channel s1) \<longrightarrow>
        stream_read h s n (pre @ oc # rest) =
          Some (Inr (CC_ERDHUP,
            s1\<lparr>channel := (channel s1)\<lparr>recv_ready := False, state := CONN_EOF\<rparr>\<rparr>, rest)))
   \<and> conn_recv (c\<lparr>state := st\<rparr>) nbyte script =
        map_option
          (map_sum id (\<lambda>(k, c', rest'). (k, if k = 0 then c' else c'\<lparr>state := st\<rparr>, rest')))
          (conn_recv c nbyte script)
   \<and> (recv_ready c \<and> nbyte \<noteq> 0 \<and> 0 <s ret oc \<longrightarrow>
        conn_recv c nbyte (pre @ oc # rest) =
          Some (Inr (ret oc,
            (if ret oc <s nbyte then c\<lparr>recv_ready := False\<rparr> else c)
              \<lparr>recv_nbyte := recv_nbyte c + ret oc\<rparr>, rest)))
   \<and> (recv_ready c \<and> nbyte \<noteq> 0 \<and> \<not> is_eintr oc \<longrightarrow>
        (\<exists>k c'. conn_recv c nbyte (pre @ oc # rest) = Some (Inr (k, c', rest))))"
proof -
  have recv: "recv_ready c \<Longrightarrow> nbyte \<noteq> 0 \<Longrightarrow> ret oc = 0 \<Longrightarrow>
      conn_recv c nbyte (pre @ oc # rest) =
        Some (Inr (0, c\<lparr>recv_ready := False, state := CONN_EOF\<rparr>, rest))"
    for c nbyte
    by (simp add: conn_recv_def conn_recv_loop_eintr [OF pre] Let_def)
  have strm: "stream_read h s n (pre @ oc # rest) =
          Some (Inr (CC_ERDHUP,
            s1\<lparr>channel := (channel s1)\<lparr>recv_ready := False, state := CONN_EOF\<rparr>\<rparr>, rest))"
    if a: "ret oc = 0" "type s = CHANNEL_TCP" "n \<le> SSIZE_MAX" "n \<noteq> 0"
      "s1 = run_hook (pre_read h) s n"
      "type s1 = CHANNEL_TCP" "\<not> mbuf_wsize (rbuf s1) < n" "recv_ready (channel s1)"
    using a recv [of "channel s1" n]
    by (simp add: stream_read_def Let_def)
  have blind: "conn_recv (c\<lparr>state := st\<rparr>) nbyte script =
        map_option
          (map_sum id (\<lambda>(k, c', rest'). (k, if k = 0 then c' else c'\<lparr>state := st\<rparr>, rest')))
          (conn_recv c nbyte script)"
    by (rule conn_recv_state)
  have bytes: "recv_ready c \<Longrightarrow> nbyte \<noteq> 0 \<Longrightarrow> 0 <s ret oc \<Longrightarrow>
        conn_recv c nbyte (pre @ oc # rest) =
          Some (Inr (ret oc,
            (if ret oc <s nbyte then c\<lparr>recv_ready := False\<rparr> else c)
              \<lparr>recv_nbyte := recv_nbyte c + ret oc\<rparr>, rest))"
    by (simp add: conn_recv_def conn_recv_loop_eintr [OF pre] Let_def)
  have reads: "recv_ready c \<Longrightarrow> nbyte \<noteq> 0 \<Longrightarrow> \<not> is_eintr oc \<Longrightarrow>
        \<exists>k c'. conn_recv c nbyte (pre @ oc # rest) = Some (Inr (k, c', rest))"
    using conn_recv_returns [OF pre, of oc nbyte c rest] by blast
  from recv strm blind bytes reads show ?thesis by blast
qed

text \<open>
  Claim C1, witness: the read that meets end of file; a \<open>stream_read\<close> over the
  connection afterwards, whose read returns 0 again; and receives on the connection in
  state \<open>CONN_EOF\<close> whose reads return 64 bytes, 5 bytes after an interruption, and
  \<open>EAGAIN\<close>.
\<close>

theorem eof_semantics_witness:
  "conn_recv conn0 64 [eintr_outcome, bytes_outcome 0] =
     Some (Inr (0, conn0\<lparr>recv_ready := False, state := CONN_EOF\<rparr>, []))
   \<and> stream_read handler0 (stream0\<lparr>channel := conn_eof\<rparr>) 64 [bytes_outcome 0] =
     Some (Inr (CC_ERDHUP, stream0\<lparr>channel := conn_eof\<lparr>recv_ready := False\<rparr>\<rparr>, []))
   \<and> conn_recv (conn0\<lparr>state := CONN_EOF\<rparr>) 64 [bytes_outcome 64] =
     Some (Inr (64, conn0\<lparr>recv_nbyte := 64, state := CONN_EOF\<rparr>, []))
   \<and> conn_recv conn_eof 64 [eintr_outcome, bytes_outcome 5] =
     Some (Inr (5, conn_eof\<lparr>recv_ready := False, recv_nbyte := 5\<rparr>, []))
   \<and> (\<exists>k c'. conn_recv conn_eof 64 [eagain_outcome] = Some (Inr (k, c', [])))"
proof -
  let ?s = "stream0\<lparr>channel := conn_eof\<rparr>"
  have n: "(64 :: size_t) \<le> SSIZE_MAX" "(64 :: size_t) \<noteq> 0" by (simp_all add: SSIZE_MAX_def)
  have pre: "list_all is_eintr [eintr_outcome]" "list_all is_eintr []"
    by (simp_all add: is_eintr_eintr_outcome)
  have rdy: "recv_ready conn0" "recv_ready conn_eof" by (simp_all add: conn0_def conn_eof_def)
  have s: "type ?s = CHANNEL_TCP" "run_hook (pre_read handler0) ?s 64 = ?s"
    "\<not> mbuf_wsize (rbuf ?s) < 64" "channel ?s = conn_eof"
    by (simp_all add: stream0_def handler0_def run_hook_def mbuf_wsize_def)
  have e: "conn_eof\<lparr>recv_ready := False, state := CONN_EOF\<rparr> = conn_eof\<lparr>recv_ready := False\<rparr>"
    by (simp add: conn_eof_def)
  have c0: "recv_nbyte conn_eof = 0" by (simp add: conn_eof_def conn0_def)
  have five: "(0 :: ssize_t) <s 5" "(5 :: ssize_t) <s 64" by (simp_all add: word_sless_alt)
  have ne: "\<not> is_eintr eagain_outcome"
    by (simp add: is_eintr_def eagain_outcome_def EINTR_def EAGAIN_def)
  have a: "conn_recv conn0 64 [eintr_outcome, bytes_outcome 0] =
     Some (Inr (0, conn0\<lparr>recv_ready := False, state := CONN_EOF\<rparr>, []))"
    using eof_semantics [OF pre(1), of conn0 64 "bytes_outcome 0" "[]"] n rdy
    by (simp add: ret_bytes_outcome)
  have b: "stream_read handler0 ?s 64 [bytes_outcome 0] =
     Some (Inr (CC_ERDHUP, stream0\<lparr>channel := conn_eof\<lparr>recv_ready := False\<rparr>\<rparr>, []))"
    using eof_semantics [OF pre(2), of _ _ "bytes_outcome 0" "[]" ?s 64 ?s handler0]
      n rdy s
    by (simp add: e ret_bytes_outcome)
  have c: "conn_recv (conn0\<lparr>state := CONN_EOF\<rparr>) 64 [bytes_outcome 64] =
     Some (Inr (64, conn0\<lparr>recv_nbyte := 64, state := CONN_EOF\<rparr>, []))"
    using eof_semantics [OF pre(2), of conn0 64 _ _ _ _ _ _ CONN_EOF "[bytes_outcome 64]"]
    by (simp add: conn0_recv_samples)
  have d: "conn_recv conn_eof 64 [eintr_outcome, bytes_outcome 5] =
     Some (Inr (5, conn_eof\<lparr>recv_ready := False, recv_nbyte := 5\<rparr>, []))"
    using eof_semantics [OF pre(1), of conn_eof 64 "bytes_outcome 5" "[]"] n rdy five
    by (simp add: ret_bytes_outcome c0)
  have f: "\<exists>k c'. conn_recv conn_eof 64 [eagain_outcome] = Some (Inr (k, c', []))"
    using eof_semantics [OF pre(2), of conn_eof 64 eagain_outcome "[]"] n rdy ne
    by simp
  from a b c d f show ?thesis by blast
qed

text \<open>
  Claim C1, as stated, fails: on a connection in state \<open>CONN_EOF\<close> a receive takes an
  outcome from the script, so the socket is read; and it returns what the read
  returns, here 5 bytes, on which \<open>stream_read\<close> returns \<open>CC_OK\<close> and not
  \<open>CC_ERDHUP\<close>.
\<close>

theorem eof_semantics_counterexample:
  "state conn_eof = CONN_EOF
   \<and> conn_recv conn_eof 64 [bytes_outcome 0] =
       Some (Inr (0, conn_eof\<lparr>recv_ready := False\<rparr>, []))
   \<and> conn_recv conn_eof 64 [bytes_outcome 5] =
       Some (Inr (5, conn_eof\<lparr>recv_ready := False, recv_nbyte := 5\<rparr>, []))
   \<and> stream_read handler0 (stream0\<lparr>channel := conn_eof\<rparr>) 64 [bytes_outcome 5] =
       Some (Inr (CC_OK,
         stream0\<lparr>channel := conn_eof\<lparr>recv_ready := False, recv_nbyte := 5\<rparr>,
           rbuf := \<lparr>rpos = 0x1000, wpos = 0x1005, capacity = 0x1400\<rparr>, data := 5\<rparr>, []))
   \<and> CC_OK \<noteq> CC_ERDHUP"
proof -
  have a: "state conn_eof = CONN_EOF" by (simp add: conn_eof_def)
  have b: "conn_recv conn_eof 64 [bytes_outcome 0] =
       Some (Inr (0, conn_eof\<lparr>recv_ready := False\<rparr>, []))"
    by (simp add: conn_recv_def conn_eof_def conn0_def bytes_outcome_def Let_def)
  have c: "conn_recv conn_eof 64 [bytes_outcome 5] =
       Some (Inr (5, conn_eof\<lparr>recv_ready := False, recv_nbyte := 5\<rparr>, []))"
    by (simp add: conn_recv_def conn_eof_def conn0_def bytes_outcome_def Let_def word_sless_alt)
  have d: "stream_read handler0 (stream0\<lparr>channel := conn_eof\<rparr>) 64 [bytes_outcome 5] =
       Some (Inr (CC_OK,
         stream0\<lparr>channel := conn_eof\<lparr>recv_ready := False, recv_nbyte := 5\<rparr>,
           rbuf := \<lparr>rpos = 0x1000, wpos = 0x1005, capacity = 0x1400\<rparr>, data := 5\<rparr>, []))"
    by (simp add: stream_read_def c stream0_def handler0_def run_hook_def count_hook_def
        mbuf_wsize_def SSIZE_MAX_def Let_def word_sless_alt)
  have e: "CC_OK \<noteq> CC_ERDHUP" by (simp add: CC_OK_def CC_ERDHUP_def)
  from a b c d e show ?thesis by blast
qed

section \<open>Scalar and vector receive\<close>

text \<open>
  Claim C2 at the input where the two receive functions part: the read returns 0 bytes
  on a connected socket. \<open>conn_recv\<close> leaves the connection in state \<open>CONN_EOF\<close>;
  \<open>conn_recvv\<close> returns the same 0 and clears the same flag, and leaves the state
  \<open>CONN_CONNECTED\<close>.
\<close>

theorem conn_recvv_zero_keeps_state:
  "conn_recv conn0 64 [bytes_outcome 0] =
     Some (Inr (0, conn0\<lparr>recv_ready := False, state := CONN_EOF\<rparr>, []))
   \<and> conn_recvv conn0 1 64 [bytes_outcome 0] =
     Some (Inr (0, conn0\<lparr>recv_ready := False\<rparr>, []))
   \<and> state (conn0\<lparr>recv_ready := False\<rparr>) = CONN_CONNECTED
   \<and> CONN_CONNECTED \<noteq> CONN_EOF"
  by (simp add: conn_recv_def conn_recvv_def conn0_def bytes_outcome_def Let_def
      CONN_CONNECTED_def CONN_EOF_def)

section \<open>Readiness bookkeeping\<close>

text \<open>
  Claim C3. \<open>conn_recv\<close> is called with \<open>recv_ready\<close> set and a byte count \<open>nbyte\<close>
  that is positive and at most \<open>SSIZE_MAX\<close>: the counts a read can serve, and the only
  ones the caller passes (\<open>stream_read\<close> asserts the bound). The read may be
  interrupted any number of times first. If the read then returns \<open>k\<close> bytes with
  \<open>0 < k < nbyte\<close>, or fails with \<open>EAGAIN\<close> or \<open>EWOULDBLOCK\<close>, \<open>recv_ready\<close> is
  cleared on return; if it returns exactly \<open>nbyte\<close> bytes, \<open>recv_ready\<close> is still set.
  The same holds of \<open>conn_send\<close> and \<open>send_ready\<close>.
\<close>


theorem readiness_bookkeeping:
  assumes pre: "list_all is_eintr pre" and n0: "nbyte \<noteq> 0" and nmax: "nbyte \<le> SSIZE_MAX"
  shows
    "(recv_ready c \<and> 0 <s ret oc \<and> ret oc < nbyte \<longrightarrow>
        conn_recv c nbyte (pre @ oc # rest) =
          Some (Inr (ret oc, c\<lparr>recv_ready := False, recv_nbyte := recv_nbyte c + ret oc\<rparr>, rest)))
   \<and> (recv_ready c \<and> ret oc = nbyte \<longrightarrow>
        conn_recv c nbyte (pre @ oc # rest) =
          Some (Inr (nbyte, c\<lparr>recv_ready := True, recv_nbyte := recv_nbyte c + nbyte\<rparr>, rest)))
   \<and> (recv_ready c \<and> ret oc <s 0 \<and> (errno oc = EAGAIN \<or> errno oc = EWOULDBLOCK) \<longrightarrow>
        conn_recv c nbyte (pre @ oc # rest) =
          Some (Inr (ssize_of CC_EAGAIN, c\<lparr>recv_ready := False\<rparr>, rest)))
   \<and> (send_ready c \<and> 0 <s ret oc \<and> ret oc < nbyte \<longrightarrow>
        conn_send c nbyte (pre @ oc # rest) =
          Some (Inr (ret oc, c\<lparr>send_ready := False, send_nbyte := send_nbyte c + ret oc\<rparr>, rest)))
   \<and> (send_ready c \<and> ret oc = nbyte \<longrightarrow>
        conn_send c nbyte (pre @ oc # rest) =
          Some (Inr (nbyte, c\<lparr>send_ready := True, send_nbyte := send_nbyte c + nbyte\<rparr>, rest)))
   \<and> (send_ready c \<and> ret oc <s 0 \<and> (errno oc = EAGAIN \<or> errno oc = EWOULDBLOCK) \<longrightarrow>
        conn_send c nbyte (pre @ oc # rest) =
          Some (Inr (ssize_of CC_EAGAIN, c\<lparr>send_ready := False\<rparr>, rest)))"
proof -
  have npos: "0 <s nbyte" using n0 nmax by (simp add: zero_sless_iff)
  have short: "0 <s k \<Longrightarrow> k < nbyte \<Longrightarrow> k <s nbyte" for k
    using nmax by (simp add: pos_sless_iff_less)
  have r1: "recv_ready c \<Longrightarrow> 0 <s ret oc \<Longrightarrow> ret oc < nbyte \<Longrightarrow>
        conn_recv c nbyte (pre @ oc # rest) =
          Some (Inr (ret oc, c\<lparr>recv_ready := False, recv_nbyte := recv_nbyte c + ret oc\<rparr>, rest))"
    using n0 by (simp add: conn_recv_def conn_recv_loop_eintr [OF pre] short Let_def)
  have r2: "recv_ready c \<Longrightarrow> ret oc = nbyte \<Longrightarrow>
        conn_recv c nbyte (pre @ oc # rest) =
          Some (Inr (nbyte, c\<lparr>recv_ready := True, recv_nbyte := recv_nbyte c + nbyte\<rparr>, rest))"
    using n0 npos by (simp add: conn_recv_def conn_recv_loop_eintr [OF pre] Let_def)
  have r3: "recv_ready c \<Longrightarrow> ret oc <s 0 \<Longrightarrow> errno oc = EAGAIN \<or> errno oc = EWOULDBLOCK \<Longrightarrow>
        conn_recv c nbyte (pre @ oc # rest) =
          Some (Inr (ssize_of CC_EAGAIN, c\<lparr>recv_ready := False\<rparr>, rest))"
    using n0 eintr_not_eagain
    by (auto simp: conn_recv_def conn_recv_loop_eintr [OF pre] Let_def dest: sless_zero_cases)
  have s1: "send_ready c \<Longrightarrow> 0 <s ret oc \<Longrightarrow> ret oc < nbyte \<Longrightarrow>
        conn_send c nbyte (pre @ oc # rest) =
          Some (Inr (ret oc, c\<lparr>send_ready := False, send_nbyte := send_nbyte c + ret oc\<rparr>, rest))"
    using n0 by (simp add: conn_send_def conn_send_loop_eintr [OF pre] short Let_def)
  have s2: "send_ready c \<Longrightarrow> ret oc = nbyte \<Longrightarrow>
        conn_send c nbyte (pre @ oc # rest) =
          Some (Inr (nbyte, c\<lparr>send_ready := True, send_nbyte := send_nbyte c + nbyte\<rparr>, rest))"
    using n0 npos by (simp add: conn_send_def conn_send_loop_eintr [OF pre] Let_def)
  have s3: "send_ready c \<Longrightarrow> ret oc <s 0 \<Longrightarrow> errno oc = EAGAIN \<or> errno oc = EWOULDBLOCK \<Longrightarrow>
        conn_send c nbyte (pre @ oc # rest) =
          Some (Inr (ssize_of CC_EAGAIN, c\<lparr>send_ready := False\<rparr>, rest))"
    using n0 eintr_not_eagain
    by (auto simp: conn_send_def conn_send_loop_eintr [OF pre] Let_def dest: sless_zero_cases)
  from r1 r2 r3 s1 s2 s3 show ?thesis by blast
qed

text \<open>
  Claim C3, witness: a read of 10 bytes that is interrupted once and then returns 3
  bytes, one that returns all 10, and one that fails with \<open>EAGAIN\<close>; the same for
  writes.
\<close>

theorem readiness_bookkeeping_witness:
  "conn_recv conn0 10 [eintr_outcome, bytes_outcome 3] =
     Some (Inr (3, conn0\<lparr>recv_ready := False, recv_nbyte := 3\<rparr>, []))
   \<and> conn_recv conn0 10 [bytes_outcome 10] =
     Some (Inr (10, conn0\<lparr>recv_ready := True, recv_nbyte := 10\<rparr>, []))
   \<and> conn_recv conn0 10 [eagain_outcome] =
     Some (Inr (ssize_of CC_EAGAIN, conn0\<lparr>recv_ready := False\<rparr>, []))
   \<and> conn_send conn0 10 [eintr_outcome, bytes_outcome 3] =
     Some (Inr (3, conn0\<lparr>send_ready := False, send_nbyte := 3\<rparr>, []))
   \<and> conn_send conn0 10 [bytes_outcome 10] =
     Some (Inr (10, conn0\<lparr>send_ready := True, send_nbyte := 10\<rparr>, []))
   \<and> conn_send conn0 10 [eagain_outcome] =
     Some (Inr (ssize_of CC_EAGAIN, conn0\<lparr>send_ready := False\<rparr>, []))"
proof -
  have n: "(10 :: size_t) \<noteq> 0" "(10 :: size_t) \<le> SSIZE_MAX"
    by (simp_all add: SSIZE_MAX_def)
  have p1: "list_all is_eintr [eintr_outcome]" by (simp add: is_eintr_eintr_outcome)
  have p0: "list_all is_eintr []" by simp
  have rdy: "recv_ready conn0" "send_ready conn0" by (simp_all add: conn0_def)
  have c0: "recv_nbyte conn0 = 0" "send_nbyte conn0 = 0" by (simp_all add: conn0_def)
  have short: "0 <s ret (bytes_outcome 3)" "ret (bytes_outcome 3) < 10"
    by (simp_all add: bytes_outcome_def word_sless_alt)
  have full: "ret (bytes_outcome 10) = 10" by (simp add: bytes_outcome_def)
  have again: "ret eagain_outcome <s 0" "errno eagain_outcome = EAGAIN"
    by (simp_all add: eagain_outcome_def word_sless_alt)
  show ?thesis
    using readiness_bookkeeping [OF p1 n, of conn0 "bytes_outcome 3" "[]"]
      readiness_bookkeeping [OF p0 n, of conn0 "bytes_outcome 10" "[]"]
      readiness_bookkeeping [OF p0 n, of conn0 eagain_outcome "[]"]
      rdy short full again
    by (simp add: c0 ret_bytes_outcome)
qed

section \<open>Stream reads\<close>

text \<open>
  Claim C4. \<open>stream_read\<close> on a TCP stream, with \<open>nbyte\<close> at most \<open>SSIZE_MAX\<close> as
  the function asserts; \<open>s1\<close> is the stream as \<open>pre_read\<close> leaves it. When the
  writable size of \<open>rbuf\<close> is less than \<open>nbyte\<close>, the call returns \<open>CC_ENOMEM\<close>
  and the script is untouched: no receive is made. Otherwise, with \<open>k\<close> the result of
  \<open>conn_recv\<close> for \<open>nbyte\<close> bytes, the status is \<open>CC_OK\<close> on the \<open>EAGAIN\<close> sentinel,
  \<open>CC_ERROR\<close> on the error sentinel, \<open>CC_ERDHUP\<close> for 0, \<open>CC_ERETRY\<close> for
  \<open>k = nbyte\<close> and \<open>CC_OK\<close> for any other positive \<open>k\<close>; for positive \<open>k\<close> the
  write cursor of \<open>rbuf\<close> moves by exactly \<open>k\<close> and \<open>post_read\<close>, if present, is run
  on the stream with \<open>k\<close>. The call returns whenever the read, after any number of
  interruptions, has an outcome other than \<open>EINTR\<close>.
\<close>

theorem stream_read_status:
  assumes tcp: "type s = CHANNEL_TCP" and nmax: "nbyte \<le> SSIZE_MAX"
    and s1: "s1 = run_hook (pre_read h) s nbyte" and tcp1: "type s1 = CHANNEL_TCP"
  shows
    "(mbuf_wsize (rbuf s1) < nbyte \<longrightarrow>
        stream_read h s nbyte script = Some (Inr (CC_ENOMEM, s1, script)))
   \<and> (\<not> mbuf_wsize (rbuf s1) < nbyte
        \<and> conn_recv (channel s1) nbyte script = Some (Inr (k, c, script')) \<longrightarrow>
        stream_read h s nbyte script =
          Some (Inr
            (if k = ssize_of CC_EAGAIN then CC_OK
             else if k = ssize_of CC_ERROR then CC_ERROR
             else if k = 0 then CC_ERDHUP
             else if k = nbyte then CC_ERETRY
             else CC_OK,
             if 0 <s k then
               run_hook (post_read h)
                 (s1\<lparr>channel := c, rbuf := (rbuf s1)\<lparr>wpos := wpos (rbuf s1) + k\<rparr>\<rparr>) k
             else s1\<lparr>channel := c\<rparr>,
             script')))
   \<and> (\<not> mbuf_wsize (rbuf s1) < nbyte \<and> nbyte \<noteq> 0 \<and> recv_ready (channel s1)
        \<and> list_all is_eintr pre \<and> \<not> is_eintr oc \<longrightarrow>
        (\<exists>status s'. stream_read h s nbyte (pre @ oc # rest) = Some (Inr (status, s', rest))))"
proof (intro conjI impI)
  assume "mbuf_wsize (rbuf s1) < nbyte"
  then show "stream_read h s nbyte script = Some (Inr (CC_ENOMEM, s1, script))"
    using tcp nmax s1 by (simp add: stream_read_def Let_def)
next
  assume a: "\<not> mbuf_wsize (rbuf s1) < nbyte
        \<and> conn_recv (channel s1) nbyte script = Some (Inr (k, c, script'))"
  then have rng: "k = ssize_of CC_EAGAIN \<or> k = ssize_of CC_ERROR \<or> 0 \<le>s k"
    by (auto dest: conn_recv_range)
  have unf: "stream_read h s nbyte script =
      (let status =
            (if k <s 0 then (if k = ssize_of CC_EAGAIN then CC_OK else CC_ERROR)
             else if k = 0 then CC_ERDHUP
             else if k = nbyte then CC_ERETRY
             else CC_OK);
           s2 = s1\<lparr>channel := c\<rparr>;
           s3 = s2\<lparr>rbuf := (rbuf s2)\<lparr>wpos := wpos (rbuf s2) + (if 0 <s k then k else 0)\<rparr>\<rparr>;
           s4 = (if 0 <s k then run_hook (post_read h) s3 k else s3)
       in Some (Inr (status, s4, script')))"
    using a tcp nmax s1 [symmetric] tcp1 by (simp add: stream_read_def Let_def)
  from rng show "stream_read h s nbyte script =
          Some (Inr
            (if k = ssize_of CC_EAGAIN then CC_OK
             else if k = ssize_of CC_ERROR then CC_ERROR
             else if k = 0 then CC_ERDHUP
             else if k = nbyte then CC_ERETRY
             else CC_OK,
             if 0 <s k then
               run_hook (post_read h)
                 (s1\<lparr>channel := c, rbuf := (rbuf s1)\<lparr>wpos := wpos (rbuf s1) + k\<rparr>\<rparr>) k
             else s1\<lparr>channel := c\<rparr>,
             script'))"
  proof (elim disjE)
    assume "k = ssize_of CC_EAGAIN"
    then show ?thesis using sentinels_negative
      by (auto simp: unf Let_def dest: sless_zero_cases)
  next
    assume "k = ssize_of CC_ERROR"
    then show ?thesis using sentinels_negative
      by (auto simp: unf Let_def dest: sless_zero_cases)
  next
    assume nn: "0 \<le>s k"
    then have "\<not> k <s 0" "k \<noteq> ssize_of CC_EAGAIN" "k \<noteq> ssize_of CC_ERROR"
      using sentinels_negative by (auto dest: sle_not_sless)
    then show ?thesis
      by (auto simp: unf Let_def)
  qed
next
  assume a: "\<not> mbuf_wsize (rbuf s1) < nbyte \<and> nbyte \<noteq> 0 \<and> recv_ready (channel s1)
        \<and> list_all is_eintr pre \<and> \<not> is_eintr oc"
  then obtain k c where "conn_recv (channel s1) nbyte (pre @ oc # rest) = Some (Inr (k, c, rest))"
    using conn_recv_returns [of pre oc nbyte "channel s1" rest] by blast
  then show "\<exists>status s'. stream_read h s nbyte (pre @ oc # rest) = Some (Inr (status, s', rest))"
    using a tcp nmax s1 [symmetric] tcp1 by (simp add: stream_read_def Let_def)
qed

text \<open>
  Claim C4, witness: a read that the buffer cannot hold, a short read after an
  interruption, a full read, end of file, \<open>EAGAIN\<close>, a connection reset, and a read
  interrupted twice.
\<close>

theorem stream_read_status_witness:
  "stream_read handler0 stream0 2000 [bytes_outcome 3] =
     Some (Inr (CC_ENOMEM, stream0, [bytes_outcome 3]))
   \<and> stream_read handler0 stream0 64 [eintr_outcome, bytes_outcome 3] =
     Some (Inr (CC_OK,
       stream0\<lparr>channel := conn0\<lparr>recv_ready := False, recv_nbyte := 3\<rparr>,
         rbuf := \<lparr>rpos = 0x1000, wpos = 0x1003, capacity = 0x1400\<rparr>, data := 3\<rparr>, []))
   \<and> stream_read handler0 stream0 64 [bytes_outcome 64] =
     Some (Inr (CC_ERETRY,
       stream0\<lparr>channel := conn0\<lparr>recv_nbyte := 64\<rparr>,
         rbuf := \<lparr>rpos = 0x1000, wpos = 0x1040, capacity = 0x1400\<rparr>, data := 64\<rparr>, []))
   \<and> stream_read handler0 stream0 64 [bytes_outcome 0] =
     Some (Inr (CC_ERDHUP,
       stream0\<lparr>channel := conn0\<lparr>recv_ready := False, state := CONN_EOF\<rparr>\<rparr>, []))
   \<and> stream_read handler0 stream0 64 [eagain_outcome] =
     Some (Inr (CC_OK, stream0\<lparr>channel := conn0\<lparr>recv_ready := False\<rparr>\<rparr>, []))
   \<and> stream_read handler0 stream0 64 [error_outcome] =
     Some (Inr (CC_ERROR, stream0\<lparr>channel := conn0\<lparr>recv_ready := False, err := 104\<rparr>\<rparr>, []))
   \<and> (\<exists>status s'. stream_read handler0 stream0 64 [eintr_outcome, eintr_outcome, bytes_outcome 5]
          = Some (Inr (status, s', [])))"
proof -
  have n: "(2000 :: size_t) \<le> SSIZE_MAX" "(64 :: size_t) \<le> SSIZE_MAX"
    by (simp_all add: SSIZE_MAX_def)
  have w: "mbuf_wsize (rbuf stream0) < 2000" "\<not> mbuf_wsize (rbuf stream0) < 64"
    by (simp_all add: stream0_simps mbuf_wsize_def)
  have d: "data stream0 = 0" by (simp add: stream0_def)
  have pos: "(0::ssize_t) <s 3" "(0::ssize_t) <s 64" "\<not> (- 2 :: ssize_t) = 0"
    "\<not> (0::ssize_t) <s - 2" "\<not> (0::ssize_t) <s - 1"
    by (simp_all add: word_sless_alt)
  have pre: "list_all is_eintr [eintr_outcome, eintr_outcome]"
    by (simp add: is_eintr_eintr_outcome)
  have last: "\<not> is_eintr (bytes_outcome 5)" "recv_ready conn0"
    by (simp_all add: is_eintr_def bytes_outcome_def word_sless_alt conn0_def)
  note inst = stream_read_status [of stream0 _ stream0 handler0, OF stream0_simps(1) _
      stream0_simps(5) [symmetric] stream0_simps(1)]
  have a: "stream_read handler0 stream0 2000 [bytes_outcome 3] =
     Some (Inr (CC_ENOMEM, stream0, [bytes_outcome 3]))"
    using inst [OF n(1), of "[bytes_outcome 3]"] w by simp
  have b: "stream_read handler0 stream0 64 [eintr_outcome, bytes_outcome 3] =
     Some (Inr (CC_OK,
       stream0\<lparr>channel := conn0\<lparr>recv_ready := False, recv_nbyte := 3\<rparr>,
         rbuf := \<lparr>rpos = 0x1000, wpos = 0x1003, capacity = 0x1400\<rparr>, data := 3\<rparr>, []))"
    using inst [OF n(2), of "[eintr_outcome, bytes_outcome 3]" 3 _ "[]"] w
    by (simp add: stream0_simps conn0_recv_samples sentinel_values d pos)
  have c: "stream_read handler0 stream0 64 [bytes_outcome 64] =
     Some (Inr (CC_ERETRY,
       stream0\<lparr>channel := conn0\<lparr>recv_nbyte := 64\<rparr>,
         rbuf := \<lparr>rpos = 0x1000, wpos = 0x1040, capacity = 0x1400\<rparr>, data := 64\<rparr>, []))"
    using inst [OF n(2), of "[bytes_outcome 64]" 64 _ "[]"] w
    by (simp add: stream0_simps conn0_recv_samples sentinel_values d pos)
  have e: "stream_read handler0 stream0 64 [bytes_outcome 0] =
     Some (Inr (CC_ERDHUP,
       stream0\<lparr>channel := conn0\<lparr>recv_ready := False, state := CONN_EOF\<rparr>\<rparr>, []))"
    using inst [OF n(2), of "[bytes_outcome 0]" 0 _ "[]"] w
    by (simp add: stream0_simps conn0_recv_samples sentinel_values d pos)
  have f: "stream_read handler0 stream0 64 [eagain_outcome] =
     Some (Inr (CC_OK, stream0\<lparr>channel := conn0\<lparr>recv_ready := False\<rparr>\<rparr>, []))"
    using inst [OF n(2), of "[eagain_outcome]" "ssize_of CC_EAGAIN" _ "[]"] w
    by (simp add: stream0_simps conn0_recv_samples sentinel_values d pos)
  have g: "stream_read handler0 stream0 64 [error_outcome] =
     Some (Inr (CC_ERROR, stream0\<lparr>channel := conn0\<lparr>recv_ready := False, err := 104\<rparr>\<rparr>, []))"
    using inst [OF n(2), of "[error_outcome]" "ssize_of CC_ERROR" _ "[]"] w
    by (simp add: stream0_simps conn0_recv_samples sentinel_values d pos)
  have h: "\<exists>status s'. stream_read handler0 stream0 64 [eintr_outcome, eintr_outcome, bytes_outcome 5]
          = Some (Inr (status, s', []))"
    using inst [OF n(2), of _ _ _ _ "[eintr_outcome, eintr_outcome]" "bytes_outcome 5" "[]"]
      w pre last
    by (simp add: stream0_simps)
  from a b c e f g h show ?thesis by blast
qed

section \<open>Stream writes\<close>

text \<open>
  Claim C5. \<open>stream_write\<close> on a TCP stream, with \<open>nbyte\<close> at most \<open>SSIZE_MAX\<close> as
  the function asserts; \<open>s1\<close> is the stream as \<open>pre_write\<close> leaves it and \<open>content\<close>
  the readable size of its \<open>wbuf\<close>. When \<open>content\<close> is 0 the call returns
  \<open>CC_EEMPTY\<close> and the script is untouched: no send is made. Otherwise \<open>conn_send\<close>
  is called for \<open>content\<close> bytes, not for \<open>nbyte\<close>; with \<open>k\<close> its result, the status
  is \<open>CC_EAGAIN\<close> on the \<open>EAGAIN\<close> sentinel, \<open>CC_ERROR\<close> on the error sentinel,
  \<open>CC_ERETRY\<close> for \<open>k < content\<close> and \<open>CC_OK\<close> otherwise; the read cursor of \<open>wbuf\<close>
  moves by \<open>k\<close> when \<open>k\<close> is positive and stays otherwise, and \<open>post_write\<close>, if
  present, is run with \<open>k\<close> when \<open>k\<close> is positive. The call returns whenever the write,
  after any number of interruptions, has an outcome other than \<open>EINTR\<close>.
\<close>

theorem stream_write_status:
  assumes tcp: "type s = CHANNEL_TCP" and nmax: "nbyte \<le> SSIZE_MAX"
    and s1: "s1 = run_hook (pre_write h) s nbyte" and tcp1: "type s1 = CHANNEL_TCP"
    and content: "content = mbuf_rsize (wbuf s1)"
  shows
    "(content = 0 \<longrightarrow>
        stream_write h s nbyte script = Some (Inr (CC_EEMPTY, s1, script)))
   \<and> (content \<noteq> 0
        \<and> conn_send (channel s1) content script = Some (Inr (k, c, script')) \<longrightarrow>
        stream_write h s nbyte script =
          Some (Inr
            (if k = ssize_of CC_EAGAIN then CC_EAGAIN
             else if k = ssize_of CC_ERROR then CC_ERROR
             else if k < content then CC_ERETRY
             else CC_OK,
             if 0 <s k then
               run_hook (post_write h)
                 (s1\<lparr>channel := c, wbuf := (wbuf s1)\<lparr>rpos := rpos (wbuf s1) + k\<rparr>\<rparr>) k
             else s1\<lparr>channel := c\<rparr>,
             script')))
   \<and> (content \<noteq> 0 \<and> send_ready (channel s1)
        \<and> list_all is_eintr pre \<and> \<not> is_eintr oc \<longrightarrow>
        (\<exists>status s'. stream_write h s nbyte (pre @ oc # rest) = Some (Inr (status, s', rest))))"
proof (intro conjI impI)
  assume "content = 0"
  then show "stream_write h s nbyte script = Some (Inr (CC_EEMPTY, s1, script))"
    using tcp nmax s1 content by (simp add: stream_write_def Let_def)
next
  assume a: "content \<noteq> 0
        \<and> conn_send (channel s1) content script = Some (Inr (k, c, script'))"
  then have rng: "k = ssize_of CC_EAGAIN \<or> k = ssize_of CC_ERROR \<or> 0 \<le>s k"
    by (auto dest: conn_send_range)
  have unf: "stream_write h s nbyte script =
      (let s2 = s1\<lparr>channel := c\<rparr> in
       if k <s 0 then
         (if k = ssize_of CC_EAGAIN then Some (Inr (CC_EAGAIN, s2, script'))
          else Some (Inr (CC_ERROR, s2, script')))
       else
         let status = (if k < content then CC_ERETRY else CC_OK);
             s3 = s2\<lparr>wbuf := (wbuf s2)\<lparr>rpos := rpos (wbuf s2) + (if 0 <s k then k else 0)\<rparr>\<rparr>;
             s4 = (if 0 <s k then run_hook (post_write h) s3 k else s3)
         in Some (Inr (status, s4, script')))"
    using a tcp nmax s1 [symmetric] tcp1 content [symmetric]
    by (simp add: stream_write_def Let_def)
  from rng show "stream_write h s nbyte script =
          Some (Inr
            (if k = ssize_of CC_EAGAIN then CC_EAGAIN
             else if k = ssize_of CC_ERROR then CC_ERROR
             else if k < content then CC_ERETRY
             else CC_OK,
             if 0 <s k then
               run_hook (post_write h)
                 (s1\<lparr>channel := c, wbuf := (wbuf s1)\<lparr>rpos := rpos (wbuf s1) + k\<rparr>\<rparr>) k
             else s1\<lparr>channel := c\<rparr>,
             script'))"
  proof (elim disjE)
    assume "k = ssize_of CC_EAGAIN"
    then show ?thesis using sentinels_negative
      by (auto simp: unf Let_def dest: sless_zero_cases)
  next
    assume "k = ssize_of CC_ERROR"
    then show ?thesis using sentinels_negative
      by (auto simp: unf Let_def dest: sless_zero_cases)
  next
    assume nn: "0 \<le>s k"
    then have "\<not> k <s 0" "k \<noteq> ssize_of CC_EAGAIN" "k \<noteq> ssize_of CC_ERROR"
      using sentinels_negative by (auto dest: sle_not_sless)
    then show ?thesis
      by (auto simp: unf Let_def)
  qed
next
  assume a: "content \<noteq> 0 \<and> send_ready (channel s1)
        \<and> list_all is_eintr pre \<and> \<not> is_eintr oc"
  then obtain k c where "conn_send (channel s1) content (pre @ oc # rest) = Some (Inr (k, c, rest))"
    using conn_send_returns [of pre oc content "channel s1" rest] by blast
  then show "\<exists>status s'. stream_write h s nbyte (pre @ oc # rest) = Some (Inr (status, s', rest))"
    using a tcp nmax s1 [symmetric] tcp1 content [symmetric]
    by (auto simp: stream_write_def Let_def)
qed

text \<open>
  Claim C5, witness: a write with nothing to send, a partial write after an
  interruption (40 of 100 bytes, while the caller passed 7), a complete write,
  \<open>EAGAIN\<close>, a connection reset, and a write interrupted twice.
\<close>

theorem stream_write_status_witness:
  "stream_write handler0 stream_empty 7 [bytes_outcome 3] =
     Some (Inr (CC_EEMPTY, stream_empty, [bytes_outcome 3]))
   \<and> stream_write handler0 stream0 7 [eintr_outcome, bytes_outcome 40] =
     Some (Inr (CC_ERETRY,
       stream0\<lparr>channel := conn0\<lparr>send_ready := False, send_nbyte := 40\<rparr>,
         wbuf := \<lparr>rpos = 0x2028, wpos = 0x2064, capacity = 0x2400\<rparr>, data := 40\<rparr>, []))
   \<and> stream_write handler0 stream0 7 [bytes_outcome 100] =
     Some (Inr (CC_OK,
       stream0\<lparr>channel := conn0\<lparr>send_nbyte := 100\<rparr>,
         wbuf := \<lparr>rpos = 0x2064, wpos = 0x2064, capacity = 0x2400\<rparr>, data := 100\<rparr>, []))
   \<and> stream_write handler0 stream0 7 [eagain_outcome] =
     Some (Inr (CC_EAGAIN, stream0\<lparr>channel := conn0\<lparr>send_ready := False\<rparr>\<rparr>, []))
   \<and> stream_write handler0 stream0 7 [error_outcome] =
     Some (Inr (CC_ERROR, stream0\<lparr>channel := conn0\<lparr>send_ready := False, err := 104\<rparr>\<rparr>, []))
   \<and> (\<exists>status s'. stream_write handler0 stream0 7 [eintr_outcome, eintr_outcome, bytes_outcome 5]
          = Some (Inr (status, s', [])))"
proof -
  have n: "(7 :: size_t) \<le> SSIZE_MAX" by (simp add: SSIZE_MAX_def)
  have r: "mbuf_rsize (wbuf stream_empty) = 0" "mbuf_rsize (wbuf stream0) = 100"
    by (simp_all add: stream_empty_simps stream0_simps mbuf_rsize_def)
  have d: "data stream0 = 0" by (simp add: stream0_def)
  have pos: "(0::ssize_t) <s 40" "(0::ssize_t) <s 100"
    "\<not> (0::ssize_t) <s - 2" "\<not> (0::ssize_t) <s - 1"
    by (simp_all add: word_sless_alt)
  have pre: "list_all is_eintr [eintr_outcome, eintr_outcome]"
    by (simp add: is_eintr_eintr_outcome)
  have last: "\<not> is_eintr (bytes_outcome 5)" "send_ready conn0"
    by (simp_all add: is_eintr_def bytes_outcome_def word_sless_alt conn0_def)
  note inst = stream_write_status [of stream0 7 stream0 handler0 100, OF stream0_simps(1) n
      stream0_simps(6) [symmetric] stream0_simps(1) r(2) [symmetric]]
  have a: "stream_write handler0 stream_empty 7 [bytes_outcome 3] =
     Some (Inr (CC_EEMPTY, stream_empty, [bytes_outcome 3]))"
    using stream_write_status [of stream_empty 7 stream_empty handler0 0 "[bytes_outcome 3]",
        OF stream_empty_simps(1) n stream_empty_simps(3) [symmetric] stream_empty_simps(1)
          r(1) [symmetric]]
    by simp
  have b: "stream_write handler0 stream0 7 [eintr_outcome, bytes_outcome 40] =
     Some (Inr (CC_ERETRY,
       stream0\<lparr>channel := conn0\<lparr>send_ready := False, send_nbyte := 40\<rparr>,
         wbuf := \<lparr>rpos = 0x2028, wpos = 0x2064, capacity = 0x2400\<rparr>, data := 40\<rparr>, []))"
    using inst [of "[eintr_outcome, bytes_outcome 40]" 40 _ "[]"]
    by (simp add: stream0_simps conn0_send_samples sentinel_values d pos)
  have c: "stream_write handler0 stream0 7 [bytes_outcome 100] =
     Some (Inr (CC_OK,
       stream0\<lparr>channel := conn0\<lparr>send_nbyte := 100\<rparr>,
         wbuf := \<lparr>rpos = 0x2064, wpos = 0x2064, capacity = 0x2400\<rparr>, data := 100\<rparr>, []))"
    using inst [of "[bytes_outcome 100]" 100 _ "[]"]
    by (simp add: stream0_simps conn0_send_samples sentinel_values d pos)
  have f: "stream_write handler0 stream0 7 [eagain_outcome] =
     Some (Inr (CC_EAGAIN, stream0\<lparr>channel := conn0\<lparr>send_ready := False\<rparr>\<rparr>, []))"
    using inst [of "[eagain_outcome]" "ssize_of CC_EAGAIN" _ "[]"]
    by (simp add: stream0_simps conn0_send_samples sentinel_values d pos)
  have g: "stream_write handler0 stream0 7 [error_outcome] =
     Some (Inr (CC_ERROR, stream0\<lparr>channel := conn0\<lparr>send_ready := False, err := 104\<rparr>\<rparr>, []))"
    using inst [of "[error_outcome]" "ssize_of CC_ERROR" _ "[]"]
    by (simp add: stream0_simps conn0_send_samples sentinel_values d pos)
  have h: "\<exists>status s'. stream_write handler0 stream0 7 [eintr_outcome, eintr_outcome, bytes_outcome 5]
          = Some (Inr (status, s', []))"
    using inst [of _ _ _ _ "[eintr_outcome, eintr_outcome]" "bytes_outcome 5" "[]"] pre last
    by (simp add: stream0_simps)
  from a b c f g h show ?thesis by blast
qed

section \<open>Translation of the event mask\<close>

text \<open>
  Claim C6. When \<open>epoll_wait\<close>, after any number of interruptions, reports the ready
  records \<open>evs\<close>, \<open>event_wait\<close> calls the callback once for each record, in order,
  with the user data of the record and the mask \<open>event_translate\<close> makes of its
  platform bits; and that mask has the \<open>ERR\<close> bit iff the platform reported
  \<open>EPOLLERR\<close> or \<open>EPOLLHUP\<close>, the \<open>READ\<close> bit iff it reported \<open>EPOLLIN\<close> or
  \<open>EPOLLRDHUP\<close>, the \<open>WRITE\<close> bit iff it reported \<open>EPOLLOUT\<close>, and no other bit.
\<close>

theorem event_mask_translation:
  assumes "0 < ep evb" and "0 < nevent evb" and "list_all is_wait_eintr pre"
    and "evs \<noteq> []" and "cb evb = Some f"
  shows "event_wait evb timeout (pre @ Ready evs # rest) w =
           Some (Inr (int (length evs),
             foldl (\<lambda>w ev. f (ptr ev) (event_translate (events ev)) w) w evs, rest))
         \<and> list_all (\<lambda>ev. mask_per_spec (events ev) (event_translate (events ev))) evs"
proof
  show "event_wait evb timeout (pre @ Ready evs # rest) w =
           Some (Inr (int (length evs),
             foldl (\<lambda>w ev. f (ptr ev) (event_translate (events ev)) w) w evs, rest))"
    using assms by (simp add: event_wait_def event_wait_loop_eintr dispatch_foldl)
  show "list_all (\<lambda>ev. mask_per_spec (events ev) (event_translate (events ev))) evs"
    by (simp add: list_all_iff event_translate_per_spec)
qed

text \<open>
  Claim C6, witness: a wait that is interrupted once and then reports three
  descriptors; the callback records what it is given.
\<close>

theorem event_mask_translation_witness:
  "event_wait evb0 (- 1) [Failed EINTR, Ready ready3] [] =
     Some (Inr (3, [(1, EVENT_READ), (2, EVENT_ERR OR EVENT_WRITE), (3, EVENT_ERR OR EVENT_READ)], []))
   \<and> mask_per_spec EPOLLIN EVENT_READ
   \<and> mask_per_spec (EPOLLOUT OR EPOLLHUP) (EVENT_ERR OR EVENT_WRITE)
   \<and> mask_per_spec (EPOLLRDHUP OR EPOLLERR) (EVENT_ERR OR EVENT_READ)"
proof -
  have h: "0 < ep evb0" "0 < nevent evb0" "cb evb0 = Some trace_cb"
    by (simp_all add: evb0_def)
  have p: "list_all is_wait_eintr [Failed EINTR :: nat wait_outcome]"
    by (simp add: is_wait_eintr_def)
  have r: "ready3 \<noteq> []" by (simp add: ready3_def)
  show ?thesis
    using event_mask_translation [OF h(1) h(2) p r h(3), of "- 1" "[]" "[]"]
    by (simp add: ready3_def translate_samples trace_cb_def)
qed

section \<open>The result of \<open>event_wait\<close>\<close>

text \<open>
  Claim C7, as the code has it. Calls of \<open>epoll_wait\<close> that fail with \<open>EINTR\<close> are
  made again and leave no trace. With the first other outcome: when at least one record
  is ready, \<open>event_wait\<close> returns the number of ready records; it has called the
  callback once for each, in order, when the event base has a callback, and has called
  nothing when it has none. When no record is ready it returns 0 for a timeout that is
  not negative (for any timeout other than -1, in fact) and -1 for the timeout -1; when
  the call fails with another \<open>errno\<close> it returns -1.
\<close>

theorem event_wait_result:
  assumes "0 < ep evb" and "0 < nevent evb" and "list_all is_wait_eintr pre"
  shows
    "(evs \<noteq> [] \<and> cb evb = Some g \<longrightarrow>
        event_wait evb timeout (pre @ Ready evs # rest) w =
          Some (Inr (int (length evs),
            foldl (\<lambda>w ev. g (ptr ev) (event_translate (events ev)) w) w evs, rest)))
   \<and> (evs \<noteq> [] \<and> cb evb = None \<longrightarrow>
        event_wait evb timeout (pre @ Ready evs # rest) w =
          Some (Inr (int (length evs), w, rest)))
   \<and> (timeout \<noteq> - 1 \<longrightarrow>
        event_wait evb timeout (pre @ Ready [] # rest) w = Some (Inr (0, w, rest)))
   \<and> event_wait evb (- 1) (pre @ Ready [] # rest) w = Some (Inr (- 1, w, rest))
   \<and> (e \<noteq> EINTR \<longrightarrow>
        event_wait evb timeout (pre @ Failed e # rest) w = Some (Inr (- 1, w, rest)))"
  using assms
  by (auto simp: event_wait_def event_wait_loop_eintr dispatch_foldl dispatch_None)

text \<open>
  Claim C7, witness: the callback counts its calls. Three ready descriptors after two
  interruptions give 3 and three calls; with no callback, 3 and no call; a timeout
  gives 0; an indefinite wait that reports nothing gives -1; \<open>EBADF\<close> gives -1.
\<close>

theorem event_wait_result_witness:
  "event_wait evb_count 100 [Failed EINTR, Failed EINTR, Ready ready3] 0 = Some (Inr (3, 3, []))
   \<and> event_wait evb_null 100 [Ready ready3] 0 = Some (Inr (3, 0, []))
   \<and> event_wait evb_count 100 [Failed EINTR, Ready []] 0 = Some (Inr (0, 0, []))
   \<and> event_wait evb_count (- 1) [Ready []] 0 = Some (Inr (- 1, 0, []))
   \<and> event_wait evb_count 100 [Failed EINTR, Failed 9] 0 = Some (Inr (- 1, 0, []))"
proof -
  have h: "0 < ep evb_count" "0 < nevent evb_count" "cb evb_count = Some count_cb"
    "0 < ep evb_null" "0 < nevent evb_null" "cb evb_null = None"
    by (simp_all add: evb_count_def evb_null_def)
  have p: "list_all is_wait_eintr [Failed EINTR, Failed EINTR :: nat wait_outcome]"
    "list_all is_wait_eintr [Failed EINTR :: nat wait_outcome]"
    "list_all is_wait_eintr ([] :: nat wait_outcome list)"
    by (simp_all add: is_wait_eintr_def)
  have r: "ready3 \<noteq> []" "length ready3 = 3" by (simp_all add: ready3_def)
  have e: "(9 :: err_t) \<noteq> EINTR" by (simp add: EINTR_def)
  have f: "foldl (\<lambda>w ev. count_cb (ptr ev) (event_translate (events ev)) w) 0 ready3 = 3"
    by (simp add: ready3_def count_cb_def)
  have a: "event_wait evb_count 100 [Failed EINTR, Failed EINTR, Ready ready3] 0 = Some (Inr (3, 3, []))"
    using event_wait_result [OF h(1) h(2) p(1), of ready3 count_cb 100 "[]" 0] h(3) r f by simp
  have b: "event_wait evb_null 100 [Ready ready3] 0 = Some (Inr (3, 0, []))"
    using event_wait_result [OF h(4) h(5) p(3), of ready3 _ 100 "[]" 0] h(6) r by simp
  have c: "event_wait evb_count 100 [Failed EINTR, Ready []] 0 = Some (Inr (0, 0, []))"
    using event_wait_result [OF h(1) h(2) p(2), of _ _ 100 "[]" 0] by simp
  have d: "event_wait evb_count (- 1) [Ready []] 0 = Some (Inr (- 1, 0, []))"
    using event_wait_result [OF h(1) h(2) p(3), of _ _ _ "[]" 0] by simp
  have g: "event_wait evb_count 100 [Failed EINTR, Failed 9] 0 = Some (Inr (- 1, 0, []))"
    using event_wait_result [OF h(1) h(2) p(2), of _ _ 100 "[]" 0 9] e by simp
  from a b c d g show ?thesis by blast
qed

text \<open>
  Claim C7, as stated, fails for an event base without a callback, which
  \<open>event_base_create\<close> accepts and the loop guards for: three records are ready and 3
  is returned, and nothing is dispatched, the state being what it was; the same
  records on a base whose callback counts its calls leave the count 3.
\<close>

theorem event_wait_result_counterexample:
  "cb evb_null = None \<and> length ready3 = 3
   \<and> event_wait evb_null 100 [Ready ready3] 0 = Some (Inr (3, 0, []))
   \<and> dispatch (cb evb_null) ready3 0 = 0
   \<and> event_wait evb_count 100 [Ready ready3] 0 = Some (Inr (3, 3, []))"
  by (simp add: evb_null_def evb_count_def ready3_def event_wait_def count_cb_def)

section \<open>Comment lines and option lines\<close>

text \<open>
  Claim C8, as the code has it. \<open>option_parse\<close> returns \<open>CC_EEMPTY\<close> exactly for the
  lines that are empty or whose first character is white space or \<open>#\<close>. A line made
  of a name (characters of \<open>[A-Za-z0-9_]\<close>, at most \<open>OPTNAME_MAXLEN\<close>), a colon, white
  space, a value that neither starts nor ends with white space (at most
  \<open>OPTVAL_MAXLEN\<close> characters) and white space, within \<open>OPTLINE_MAXLEN\<close> characters in
  all, is parsed with \<open>CC_OK\<close> into that name and that value; and \<open>CC_OK\<close> is
  returned for lines of that form only. Every other line gets \<open>CC_ERROR\<close>.
\<close>

theorem option_parse_lines:
  "((fst (option_parse line) = CC_EEMPTY) =
      (line = [] \<or> isspace (hd line) \<or> hd line = CHR ''#''))
   \<and> (list_all allowed_in_name nm \<and> length nm \<le> OPTNAME_MAXLEN
        \<and> list_all isspace ws1 \<and> list_all isspace ws2
        \<and> v \<noteq> [] \<and> \<not> isspace (hd v) \<and> \<not> isspace (last v) \<and> length v \<le> OPTVAL_MAXLEN
        \<and> length (nm @ '':'' @ ws1 @ v @ ws2) \<le> OPTLINE_MAXLEN \<longrightarrow>
        option_parse (nm @ '':'' @ ws1 @ v @ ws2) = (CC_OK, Some (nm, v)))
   \<and> (fst (option_parse line) = CC_OK \<longrightarrow>
        (\<exists>nm' ws1' v' ws2'. snd (option_parse line) = Some (nm', v')
          \<and> line = nm' @ '':'' @ ws1' @ v' @ ws2'
          \<and> list_all allowed_in_name nm' \<and> length nm' \<le> OPTNAME_MAXLEN
          \<and> list_all isspace ws1' \<and> list_all isspace ws2'
          \<and> v' \<noteq> [] \<and> \<not> isspace (hd v') \<and> \<not> isspace (last v')
          \<and> length v' \<le> OPTVAL_MAXLEN \<and> length line \<le> OPTLINE_MAXLEN))
   \<and> (fst (option_parse line) = CC_EEMPTY \<or> fst (option_parse line) = CC_ERROR
        \<or> fst (option_parse line) = CC_OK)"
proof (intro conjI impI)
  show "(fst (option_parse line) = CC_EEMPTY) =
      (line = [] \<or> isspace (hd line) \<or> hd line = CHR ''#'')"
    by (rule option_parse_comment)
next
  assume "list_all allowed_in_name nm \<and> length nm \<le> OPTNAME_MAXLEN
        \<and> list_all isspace ws1 \<and> list_all isspace ws2
        \<and> v \<noteq> [] \<and> \<not> isspace (hd v) \<and> \<not> isspace (last v) \<and> length v \<le> OPTVAL_MAXLEN
        \<and> length (nm @ '':'' @ ws1 @ v @ ws2) \<le> OPTLINE_MAXLEN"
  then show "option_parse (nm @ '':'' @ ws1 @ v @ ws2) = (CC_OK, Some (nm, v))"
    using option_parse_grammar [of nm ws1 ws2 v "nm @ '':'' @ ws1 @ v @ ws2"] by blast
next
  assume "fst (option_parse line) = CC_OK"
  then have "option_parse line = (CC_OK, snd (option_parse line))"
    by (metis prod.collapse)
  from option_parse_ok_shape [OF this]
  show "\<exists>nm' ws1' v' ws2'. snd (option_parse line) = Some (nm', v')
          \<and> line = nm' @ '':'' @ ws1' @ v' @ ws2'
          \<and> list_all allowed_in_name nm' \<and> length nm' \<le> OPTNAME_MAXLEN
          \<and> list_all isspace ws1' \<and> list_all isspace ws2'
          \<and> v' \<noteq> [] \<and> \<not> isspace (hd v') \<and> \<not> isspace (last v')
          \<and> length v' \<le> OPTVAL_MAXLEN \<and> length line \<le> OPTLINE_MAXLEN" .
next
  show "fst (option_parse line) = CC_EEMPTY \<or> fst (option_parse line) = CC_ERROR
        \<or> fst (option_parse line) = CC_OK"
    by (rule option_parse_status)
qed


text \<open>
  Claim C8, witness: the empty line, a comment, a line that is a newline only, a line
  without a colon (an error, not a comment), and an option line as \<open>fgets\<close> delivers
  it, with its newline.
\<close>

theorem option_parse_lines_witness:
  "fst (option_parse '''') = CC_EEMPTY
   \<and> fst (option_parse ''# tcp_backlog: 256'') = CC_EEMPTY
   \<and> fst (option_parse [CHR 0x0A]) = CC_EEMPTY
   \<and> fst (option_parse ''tcp_backlog 256'') \<noteq> CC_EEMPTY
   \<and> option_parse (''tcp_backlog'' @ '':'' @ '' '' @ ''256'' @ [CHR 0x0A]) =
       (CC_OK, Some (''tcp_backlog'', ''256''))
   \<and> (\<exists>ws1 ws2. ''tcp_backlog'' @ '':'' @ '' '' @ ''256'' @ [CHR 0x0A] =
         ''tcp_backlog'' @ '':'' @ ws1 @ ''256'' @ ws2
         \<and> list_all isspace ws1 \<and> list_all isspace ws2)"
proof -
  have sp: "isspace CHR 0x0A" "isspace CHR '' ''" "\<not> isspace CHR ''t''"
    "\<not> isspace CHR ''2''" "\<not> isspace CHR ''6''"
    by (simp_all add: isspace_def)
  have a: "fst (option_parse '''') = CC_EEMPTY"
    using option_parse_lines [of "''''"] by simp
  have b: "fst (option_parse ''# tcp_backlog: 256'') = CC_EEMPTY"
    using option_parse_lines [of "''# tcp_backlog: 256''"] by simp
  have c: "fst (option_parse [CHR 0x0A]) = CC_EEMPTY"
    using option_parse_lines [of "[CHR 0x0A]"] sp by simp
  have d: "fst (option_parse ''tcp_backlog 256'') \<noteq> CC_EEMPTY"
    using option_parse_lines [of "''tcp_backlog 256''"] sp by simp
  have nm: "list_all allowed_in_name ''tcp_backlog''"
    by (simp add: allowed_in_name_def)
  have e: "option_parse (''tcp_backlog'' @ '':'' @ '' '' @ ''256'' @ [CHR 0x0A]) =
       (CC_OK, Some (''tcp_backlog'', ''256''))"
    using option_parse_lines [of _ "''tcp_backlog''" "'' ''" "[CHR 0x0A]" "''256''"] nm sp
    by (simp add: OPTNAME_MAXLEN_def OPTVAL_MAXLEN_def OPTLINE_MAXLEN_def)
  have f: "\<exists>ws1 ws2. ''tcp_backlog'' @ '':'' @ '' '' @ ''256'' @ [CHR 0x0A] =
         ''tcp_backlog'' @ '':'' @ ws1 @ ''256'' @ ws2
         \<and> list_all isspace ws1 \<and> list_all isspace ws2"
  proof -
    let ?l = "''tcp_backlog'' @ '':'' @ '' '' @ ''256'' @ [CHR 0x0A]"
    have "fst (option_parse ?l) = CC_OK" "snd (option_parse ?l) = Some (''tcp_backlog'', ''256'')"
      using e by simp_all
    with option_parse_lines [of ?l] show ?thesis by (metis option.inject prod.inject)
  qed
  from a b c d e f show ?thesis by blast
qed

text \<open>
  Claim C8, as stated, fails: an option line with a space in front is not empty, is not
  made of white space only and does not start with \<open>#\<close>, and \<open>option_parse\<close> returns
  \<open>CC_EEMPTY\<close> for it.
\<close>

theorem option_parse_lines_counterexample:
  "fst (option_parse '' tcp_backlog: 256'') = CC_EEMPTY
   \<and> '' tcp_backlog: 256'' \<noteq> []
   \<and> \<not> list_all isspace '' tcp_backlog: 256''
   \<and> hd '' tcp_backlog: 256'' \<noteq> CHR ''#''"
  by (simp add: option_parse_def char_at_def isspace_def)

section \<open>Unsigned options at the top of the range\<close>

text \<open>
  Claim C9. For an option of type \<open>OPTION_TYPE_UINT\<close> and any behaviour of
  \<open>strtoumax\<close>: when the value it returns for the string is \<open>UINTMAX_MAX\<close>,
  \<open>option_set\<close> returns \<open>CC_ERROR\<close> and the option is as it was, whether or not the
  string was consumed to its end; when the value is below \<open>UINTMAX_MAX\<close> and the string
  was consumed to its end, \<open>option_set\<close> returns \<open>CC_OK\<close>, raises \<open>set\<close> and stores the
  value.
\<close>

theorem option_set_uint:
  assumes "opt_type opt = OPTION_TYPE_UINT" and "strtoumax s = (val, consumed)"
  shows "(val = UINTMAX_MAX \<longrightarrow> option_set strtoumax opt (Some s) = Inr (CC_ERROR, opt))
       \<and> (val < UINTMAX_MAX \<and> consumed = length s \<longrightarrow>
            option_set strtoumax opt (Some s) =
              Inr (CC_OK, opt\<lparr>opt_set := True, opt_val := Vuint val\<rparr>))"
  using assms by (auto simp: option_set_def option_parse_uint_def)

text \<open>
  Claim C9, witness: with the \<open>strtoumax\<close> of the C standard, the exact decimal form of
  \<open>UINTMAX_MAX\<close> is refused though it is in range, as is \<open>-1\<close>, which negates to the
  same value; the number one below is stored.
\<close>

theorem option_set_uint_witness:
  "option_set strtoumax_c uint_opt (Some ''18446744073709551615'') = Inr (CC_ERROR, uint_opt)
   \<and> option_set strtoumax_c uint_opt (Some ''-1'') = Inr (CC_ERROR, uint_opt)
   \<and> option_set strtoumax_c uint_opt (Some ''18446744073709551614'') =
       Inr (CC_OK, uint_opt\<lparr>opt_set := True, opt_val := Vuint 18446744073709551614\<rparr>)"
proof -
  have t: "opt_type uint_opt = OPTION_TYPE_UINT" by (simp add: uint_opt_def)
  have lt: "(18446744073709551614 :: 64 word) < UINTMAX_MAX" by (simp add: UINTMAX_MAX_def)
  have a: "option_set strtoumax_c uint_opt (Some ''18446744073709551615'') = Inr (CC_ERROR, uint_opt)"
    using option_set_uint [of uint_opt strtoumax_c "''18446744073709551615''" UINTMAX_MAX 20, OF t strtoumax_c_max]
    by simp
  have b: "option_set strtoumax_c uint_opt (Some ''-1'') = Inr (CC_ERROR, uint_opt)"
    using option_set_uint [of uint_opt strtoumax_c "''-1''" UINTMAX_MAX 2, OF t strtoumax_c_minus_one] by simp
  have c: "option_set strtoumax_c uint_opt (Some ''18446744073709551614'') =
       Inr (CC_OK, uint_opt\<lparr>opt_set := True, opt_val := Vuint 18446744073709551614\<rparr>)"
    using option_set_uint [of uint_opt strtoumax_c "''18446744073709551614''"
        18446744073709551614 20, OF t strtoumax_c_below_max] lt
    by simp
  from a b c show ?thesis by blast
qed

section \<open>A write of zero bytes\<close>

text \<open>
  Claim C10. If the write, after any number of interruptions, reports 0 bytes sent,
  \<open>conn_send\<close> clears \<open>send_ready\<close> and returns 0; \<open>state\<close>, \<open>err\<close> and
  \<open>send_nbyte\<close> are as before. \<open>stream_write\<close> on a TCP stream whose \<open>wbuf\<close> is not
  empty then returns \<open>CC_ERETRY\<close>; the stream it leaves is the one \<open>pre_write\<close> left
  but for \<open>send_ready\<close>: the read cursor of \<open>wbuf\<close> has not moved and \<open>post_write\<close>
  has not run.
\<close>

theorem zero_byte_write:
  assumes pre: "list_all is_eintr pre" and zero: "ret oc = 0"
  shows
    "(send_ready c \<and> nbyte \<noteq> 0 \<longrightarrow>
        conn_send c nbyte (pre @ oc # rest) = Some (Inr (0, c\<lparr>send_ready := False\<rparr>, rest)))
   \<and> (type s = CHANNEL_TCP \<and> n \<le> SSIZE_MAX \<and> s1 = run_hook (pre_write h) s n
        \<and> type s1 = CHANNEL_TCP \<and> mbuf_rsize (wbuf s1) \<noteq> 0 \<and> send_ready (channel s1) \<longrightarrow>
        stream_write h s n (pre @ oc # rest) =
          Some (Inr (CC_ERETRY, s1\<lparr>channel := (channel s1)\<lparr>send_ready := False\<rparr>\<rparr>, rest)))"
proof -
  have send: "send_ready c \<Longrightarrow> nbyte \<noteq> 0 \<Longrightarrow>
      conn_send c nbyte (pre @ oc # rest) = Some (Inr (0, c\<lparr>send_ready := False\<rparr>, rest))"
    for c nbyte
    using zero by (simp add: conn_send_def conn_send_loop_eintr [OF pre] Let_def)
  have "stream_write h s n (pre @ oc # rest) =
          Some (Inr (CC_ERETRY, s1\<lparr>channel := (channel s1)\<lparr>send_ready := False\<rparr>\<rparr>, rest))"
    if a: "type s = CHANNEL_TCP" "n \<le> SSIZE_MAX" "s1 = run_hook (pre_write h) s n"
      "type s1 = CHANNEL_TCP" "mbuf_rsize (wbuf s1) \<noteq> 0" "send_ready (channel s1)"
  proof -
    have "0 < mbuf_rsize (wbuf s1)" using a(5) by (simp add: word_neq_0_conv)
    then show ?thesis
      using a send [of "channel s1" "mbuf_rsize (wbuf s1)"]
      by (simp add: stream_write_def Let_def)
  qed
  with send show ?thesis by blast
qed

text \<open>
  Claim C10, witness: a write of 100 pending bytes that is interrupted once and then
  reports 0 bytes.
\<close>

theorem zero_byte_write_witness:
  "conn_send conn0 100 [eintr_outcome, bytes_outcome 0] =
     Some (Inr (0, conn0\<lparr>send_ready := False\<rparr>, []))
   \<and> stream_write handler0 stream0 7 [eintr_outcome, bytes_outcome 0] =
     Some (Inr (CC_ERETRY, stream0\<lparr>channel := conn0\<lparr>send_ready := False\<rparr>\<rparr>, []))"
proof -
  have n: "(7 :: size_t) \<le> SSIZE_MAX" by (simp add: SSIZE_MAX_def)
  have r: "mbuf_rsize (wbuf stream0) \<noteq> 0" "(100 :: size_t) \<noteq> 0"
    by (simp_all add: stream0_simps mbuf_rsize_def)
  have pre: "list_all is_eintr [eintr_outcome]" by (simp add: is_eintr_eintr_outcome)
  have rdy: "send_ready conn0" by (simp add: conn0_def)
  show ?thesis
    using zero_byte_write [OF pre ret_bytes_outcome [of 0], of conn0 100 "[]" stream0 7 stream0 handler0]
      n r rdy
    by (simp add: stream0_simps)
qed

end
